theory Spec2Isabelle
  imports Complex_Main "HOL-Library.Log_Nat" "HOL-Library.Sublist"
begin

section \<open>Python values\<close>

text \<open>
  The coordinator stores what \<^verbatim>\<open>response.json()\<close> returned, so a snapshot is an arbitrary
  JSON value as Python represents it: \<^verbatim>\<open>None\<close>, a bool, an unbounded int, a float, a
  str, a list or a dict. A float is an IEEE double: a finite one is carried as the rational
  it denotes, the two infinities and NaN are separate values (Python's JSON reader accepts
  \<^verbatim>\<open>Infinity\<close> and \<^verbatim>\<open>NaN\<close>). The sign of zero is not modelled. A dict
  is an association list read with \<^const>\<open>map_of\<close>. A \<^typ>\<open>char\<close> stands for one code
  point below 256.
\<close>

datatype pyfloat = Fin rat | PInf | NInf | NaN

datatype json =
    JNull
  | JBool bool
  | JInt int
  | JFloat pyfloat
  | JStr string
  | JList "json list"
  | JDict "(string \<times> json) list"

datatype pyerr =
    KeyError | IndexError | TypeError | AttributeError | ValueError
  | OverflowError | ZeroDivisionError

text \<open>Sequencing of computations that may raise: the first exception wins.\<close>

fun ebind :: "'e + 'a \<Rightarrow> ('a \<Rightarrow> 'e + 'b) \<Rightarrow> 'e + 'b" where
  "ebind (Inl e) f = Inl e"
| "ebind (Inr x) f = f x"

text \<open>Python truthiness (\<^verbatim>\<open>if x:\<close>, \<^verbatim>\<open>not x\<close>).\<close>

fun truthy :: "json \<Rightarrow> bool" where
  "truthy JNull = False"
| "truthy (JBool b) = b"
| "truthy (JInt n) = (n \<noteq> 0)"
| "truthy (JFloat f) = (f \<noteq> Fin 0)"
| "truthy (JStr s) = (s \<noteq> [])"
| "truthy (JList xs) = (xs \<noteq> [])"
| "truthy (JDict kv) = (kv \<noteq> [])"

text \<open>\<^verbatim>\<open>x.get(k, dflt)\<close>: only a dict has the method.\<close>

fun dict_get :: "json \<Rightarrow> string \<Rightarrow> json \<Rightarrow> pyerr + json" where
  "dict_get (JDict kv) k dflt = Inr (case map_of kv k of None \<Rightarrow> dflt | Some v \<Rightarrow> v)"
| "dict_get v k dflt = Inl AttributeError"

text \<open>\<^verbatim>\<open>x[k]\<close> with a string key.\<close>

fun getitem :: "json \<Rightarrow> string \<Rightarrow> pyerr + json" where
  "getitem (JDict kv) k = (case map_of kv k of None \<Rightarrow> Inl KeyError | Some v \<Rightarrow> Inr v)"
| "getitem v k = Inl TypeError"

text \<open>\<^verbatim>\<open>x[-1]\<close>. The keys of a dict read from JSON are strings, so \<^verbatim>\<open>-1\<close> is never one.\<close>

fun getitem_last :: "json \<Rightarrow> pyerr + json" where
  "getitem_last (JList xs) = (if xs = [] then Inl IndexError else Inr (last xs))"
| "getitem_last (JStr s) = (if s = [] then Inl IndexError else Inr (JStr [last s]))"
| "getitem_last (JDict kv) = Inl KeyError"
| "getitem_last v = Inl TypeError"

text \<open>\<^verbatim>\<open>s.lower()\<close> on the code points below 256: the upper-case letters are \<^verbatim>\<open>A\<close> to
  \<^verbatim>\<open>Z\<close> and the code points 192 to 222 other than 215, each 32 below its lower-case letter;
  \<^verbatim>\<open>s.replace("Z", "+00:00")\<close>.\<close>

definition lower_char :: "char \<Rightarrow> char" where
  "lower_char c =
     (if (65::nat) \<le> of_char c \<and> of_char c \<le> (90::nat)
         \<or> (192::nat) \<le> of_char c \<and> of_char c \<le> (222::nat) \<and> of_char c \<noteq> (215::nat)
      then char_of (of_char c + (32::nat)) else c)"

definition py_lower :: "json \<Rightarrow> pyerr + string" where
  "py_lower v = (case v of JStr s \<Rightarrow> Inr (map lower_char s) | _ \<Rightarrow> Inl AttributeError)"

definition replace_Z :: "json \<Rightarrow> pyerr + string" where
  "replace_Z v =
     (case v of
        JStr s \<Rightarrow> Inr (concat (map (\<lambda>c. if c = CHR ''Z'' then ''+00:00'' else [c]) s))
      | _ \<Rightarrow> Inl AttributeError)"

section \<open>Double-precision arithmetic\<close>

text \<open>
  \<^term>\<open>ilog2 q\<close> is the binary exponent of a positive rational: \<open>2 ^ ilog2 q \<le> q < 2 ^ (ilog2 q + 1)\<close>.
  \<^term>\<open>fl q\<close> rounds a rational to the nearest double, ties to even, with 53 bits of
  precision and gradual underflow below \<open>2 ^ -1022\<close>. A magnitude of at least
  \<open>2 ^ 1024 - 2 ^ 970\<close> rounds beyond the largest double.
\<close>

definition ilog2 :: "rat \<Rightarrow> int" where
  "ilog2 q = (let (a, b) = quotient_of q; d = bitlen a - bitlen b
              in if 2 powi d \<le> q then d else d - 1)"

definition round_half_even :: "rat \<Rightarrow> int" where
  "round_half_even t =
     (let f = \<lfloor>t\<rfloor>; r = t - of_int f
      in if r < 1 / 2 then f else if 1 / 2 < r then f + 1 else if even f then f else f + 1)"

definition ulp_exp :: "rat \<Rightarrow> int" where
  "ulp_exp q = max (ilog2 \<bar>q\<bar>) (- 1022) - 52"

definition fl :: "rat \<Rightarrow> rat" where
  "fl q = (if q = 0 then 0
           else of_int (round_half_even (q / 2 powi ulp_exp q)) * 2 powi ulp_exp q)"

definition overflows :: "rat \<Rightarrow> bool" where
  "overflows q \<longleftrightarrow> 2 ^ 1024 - 2 ^ 970 \<le> \<bar>q\<bar>"

text \<open>The result of an IEEE operation whose exact value is \<open>q\<close>: overflow gives an infinity.\<close>

definition fround :: "rat \<Rightarrow> pyfloat" where
  "fround q = (if overflows q then (if 0 < q then PInf else NInf) else Fin (fl q))"

text \<open>Converting an int to a float raises when the int is too large.\<close>

definition int_to_float :: "int \<Rightarrow> pyerr + pyfloat" where
  "int_to_float n = (if overflows (of_int n) then Inl OverflowError else Inr (Fin (fl (of_int n))))"

text \<open>\<^verbatim>\<open>float(x)\<close>. Parsing a string is the standard library's; it is the parameter \<open>sf\<close>,
  which answers \<^const>\<open>None\<close> where \<^verbatim>\<open>float\<close> raises \<^verbatim>\<open>ValueError\<close>.\<close>

fun py_float :: "(string \<Rightarrow> pyfloat option) \<Rightarrow> json \<Rightarrow> pyerr + pyfloat" where
  "py_float sf JNull = Inl TypeError"
| "py_float sf (JBool b) = Inr (Fin (if b then 1 else 0))"
| "py_float sf (JInt n) = int_to_float n"
| "py_float sf (JFloat f) = Inr f"
| "py_float sf (JStr s) = (case sf s of None \<Rightarrow> Inl ValueError | Some f \<Rightarrow> Inr f)"
| "py_float sf (JList xs) = Inl TypeError"
| "py_float sf (JDict kv) = Inl TypeError"

text \<open>IEEE division and multiplication of a float by a finite double \<open>y\<close>.\<close>

fun ieee_div :: "pyfloat \<Rightarrow> rat \<Rightarrow> pyfloat" where
  "ieee_div (Fin x) y = fround (x / y)"
| "ieee_div PInf y = (if 0 < y then PInf else NInf)"
| "ieee_div NInf y = (if 0 < y then NInf else PInf)"
| "ieee_div NaN y = NaN"

fun ieee_mul :: "pyfloat \<Rightarrow> rat \<Rightarrow> pyfloat" where
  "ieee_mul (Fin x) y = fround (x * y)"
| "ieee_mul PInf y = (if 0 < y then PInf else if y < 0 then NInf else NaN)"
| "ieee_mul NInf y = (if 0 < y then NInf else if y < 0 then PInf else NaN)"
| "ieee_mul NaN y = NaN"

text \<open>\<^verbatim>\<open>n / c\<close> on two ints is correctly rounded and raises on overflow.\<close>

definition int_truediv :: "int \<Rightarrow> int \<Rightarrow> pyerr + pyfloat" where
  "int_truediv n c =
     (if c = 0 then Inl ZeroDivisionError
      else if overflows (of_int n / of_int c) then Inl OverflowError
      else Inr (Fin (fl (of_int n / of_int c))))"

text \<open>\<^verbatim>\<open>x / c\<close> for an int literal \<open>c\<close>: a float operand converts \<open>c\<close> to a float first.\<close>

fun py_truediv :: "json \<Rightarrow> int \<Rightarrow> pyerr + pyfloat" where
  "py_truediv (JBool b) c = int_truediv (if b then 1 else 0) c"
| "py_truediv (JInt n) c = int_truediv n c"
| "py_truediv (JFloat f) c =
     ebind (int_to_float c) (\<lambda>y. case y of
        Fin r \<Rightarrow> if r = 0 then Inl ZeroDivisionError else Inr (ieee_div f r)
      | _ \<Rightarrow> Inl OverflowError)"
| "py_truediv v c = Inl TypeError"

text \<open>\<^verbatim>\<open>x * c\<close> for an int literal \<open>c\<close>: a str or a list is repeated.\<close>

fun py_mul :: "json \<Rightarrow> int \<Rightarrow> pyerr + json" where
  "py_mul (JBool b) c = Inr (JInt ((if b then 1 else 0) * c))"
| "py_mul (JInt n) c = Inr (JInt (n * c))"
| "py_mul (JFloat f) c =
     ebind (int_to_float c) (\<lambda>y. case y of
        Fin r \<Rightarrow> Inr (JFloat (ieee_mul f r))
      | _ \<Rightarrow> Inl OverflowError)"
| "py_mul (JStr s) c = Inr (JStr (concat (replicate (nat c) s)))"
| "py_mul (JList xs) c = Inr (JList (concat (replicate (nat c) xs)))"
| "py_mul v c = Inl TypeError"

text \<open>\<^verbatim>\<open>round(x, nd)\<close> for \<open>nd \<ge> 0\<close>: an int is returned as it is; the exact value of a
  float is rounded half-even to \<open>nd\<close> decimals and the result converted to the nearest double.\<close>

fun round_float :: "pyfloat \<Rightarrow> nat \<Rightarrow> pyerr + pyfloat" where
  "round_float (Fin x) nd =
     (let r = of_int (round_half_even (x * 10 ^ nd)) / 10 ^ nd
      in if overflows r then Inl OverflowError else Inr (Fin (fl r)))"
| "round_float f nd = Inr f"

fun py_round :: "json \<Rightarrow> nat \<Rightarrow> pyerr + json" where
  "py_round (JBool b) nd = Inr (JInt (if b then 1 else 0))"
| "py_round (JInt n) nd = Inr (JInt n)"
| "py_round (JFloat f) nd = ebind (round_float f nd) (\<lambda>r. Inr (JFloat r))"
| "py_round v nd = Inl TypeError"

text \<open>\<^verbatim>\<open>int(f)\<close> truncates toward zero.\<close>

fun int_of_float :: "pyfloat \<Rightarrow> pyerr + int" where
  "int_of_float (Fin x) = Inr (if 0 \<le> x then \<lfloor>x\<rfloor> else \<lceil>x\<rceil>)"
| "int_of_float NaN = Inl ValueError"
| "int_of_float f = Inl OverflowError"

section \<open>The sensor\<close>

text \<open>
  What \<^verbatim>\<open>LibertyRiderSensor.state\<close> returns: a string, a float, an int or a timestamp.
  \<^verbatim>\<open>datetime.fromisoformat\<close> is the standard library's; it is the parameter \<open>dt\<close>, which
  answers \<^const>\<open>None\<close> where the library raises \<^verbatim>\<open>ValueError\<close>.
\<close>

typedecl datetime

datatype sensor_value = SStr string | SFloat pyfloat | SInt int | STime datetime

text \<open>The body of the \<^verbatim>\<open>try\<close> block of \<^verbatim>\<open>state\<close>, by the key of the entity description.
  \<^const>\<open>JNull\<close> is Python's \<^verbatim>\<open>None\<close>; the result \<^const>\<open>None\<close> is the sensor's
  \<^verbatim>\<open>return None\<close>.\<close>

definition state_body ::
  "(string \<Rightarrow> pyfloat option) \<Rightarrow> (string \<Rightarrow> datetime option) \<Rightarrow> string \<Rightarrow> json
     \<Rightarrow> pyerr + sensor_value option" where
  "state_body sf dt key d =
     (if key = ''status'' then
        ebind (dict_get d ''state'' JNull) (\<lambda>st.
          if st = JNull then Inr None
          else ebind (py_lower st) (\<lambda>l. Inr (Some (SStr (''entity.sensor.status.state.'' @ l)))))
      else if key = ''battery'' then
        ebind (dict_get d ''currentBatteryLevel'' JNull) (\<lambda>battery_level.
          if battery_level = JNull then Inr None
          else ebind (py_float sf battery_level) (\<lambda>f. Inr (Some (SFloat f))))
      else if key = ''distance'' then
        ebind (dict_get d ''distance'' JNull) (\<lambda>distance.
          if distance = JNull then Inr None
          else ebind (py_float sf distance) (\<lambda>f.
            ebind (py_truediv (JFloat f) 1000) (\<lambda>km. Inr (Some (SFloat km)))))
      else if key = ''duration'' then
        ebind (dict_get d ''duration'' JNull) (\<lambda>duration.
          if duration = JNull then Inr None
          else ebind (py_truediv duration 60) (\<lambda>m.
            ebind (int_of_float m) (\<lambda>i. Inr (Some (SInt i)))))
      else if key = ''pause_duration'' then
        ebind (dict_get d ''pauseDuration'' JNull) (\<lambda>pause_duration.
          if pause_duration = JNull then Inr None
          else ebind (py_truediv pause_duration 60) (\<lambda>m.
            ebind (int_of_float m) (\<lambda>i. Inr (Some (SInt i)))))
      else if key = ''start_time'' then
        ebind (dict_get d ''startTime'' JNull) (\<lambda>start_time.
          if start_time = JNull then Inr None
          else ebind (replace_Z start_time) (\<lambda>s.
            case dt s of None \<Rightarrow> Inl ValueError | Some t \<Rightarrow> Inr (Some (STime t))))
      else Inr None)"

text \<open>\<^verbatim>\<open>state\<close>: no data gives \<^verbatim>\<open>None\<close>; \<^verbatim>\<open>except Exception\<close> turns every exception
  of the body into \<^verbatim>\<open>None\<close>. A left result is an exception that leaves the property.\<close>

definition state ::
  "(string \<Rightarrow> pyfloat option) \<Rightarrow> (string \<Rightarrow> datetime option) \<Rightarrow> string \<Rightarrow> json
     \<Rightarrow> pyerr + sensor_value option" where
  "state sf dt key d =
     (if \<not> truthy d then Inr None
      else case state_body sf dt key d of Inl e \<Rightarrow> Inr None | Inr v \<Rightarrow> Inr v)"

text \<open>
  \<^verbatim>\<open>SENSOR_TYPES\<close>: the entity descriptions, one sensor for each, in the order of the dict. The
  fields \<^verbatim>\<open>key\<close>, \<^verbatim>\<open>name\<close> and \<^verbatim>\<open>icon\<close> carry the prefix \<open>desc_\<close>; a field the description
  does not set is \<^const>\<open>None\<close>. \<^verbatim>\<open>PERCENTAGE\<close> is the unit \<^verbatim>\<open>%\<close>.
\<close>

datatype unit_of_measurement = PERCENTAGE | KILOMETERS | MINUTES

datatype sensor_device_class = BATTERY | DISTANCE | DURATION | TIMESTAMP

datatype sensor_state_class = MEASUREMENT | TOTAL_INCREASING

record sensor_entity_description =
  desc_key :: string
  desc_name :: string
  desc_icon :: "string option"
  native_unit_of_measurement :: "unit_of_measurement option"
  device_class :: "sensor_device_class option"
  state_class :: "sensor_state_class option"

definition SENSOR_TYPES :: "(string \<times> sensor_entity_description) list" where
  "SENSOR_TYPES =
     [(''status'',
       \<lparr>desc_key = ''status'', desc_name = ''entity.sensor.status.name'',
        desc_icon = Some ''mdi:map-marker-path'', native_unit_of_measurement = None,
        device_class = None, state_class = None\<rparr>),
      (''battery'',
       \<lparr>desc_key = ''battery'', desc_name = ''entity.sensor.battery.name'',
        desc_icon = None, native_unit_of_measurement = Some PERCENTAGE,
        device_class = Some BATTERY, state_class = Some MEASUREMENT\<rparr>),
      (''distance'',
       \<lparr>desc_key = ''distance'', desc_name = ''entity.sensor.distance.name'',
        desc_icon = None, native_unit_of_measurement = Some KILOMETERS,
        device_class = Some DISTANCE, state_class = Some TOTAL_INCREASING\<rparr>),
      (''duration'',
       \<lparr>desc_key = ''duration'', desc_name = ''entity.sensor.duration.name'',
        desc_icon = None, native_unit_of_measurement = Some MINUTES,
        device_class = Some DURATION, state_class = Some TOTAL_INCREASING\<rparr>),
      (''pause_duration'',
       \<lparr>desc_key = ''pause_duration'', desc_name = ''entity.sensor.pause_duration.name'',
        desc_icon = None, native_unit_of_measurement = Some MINUTES,
        device_class = Some DURATION, state_class = Some TOTAL_INCREASING\<rparr>),
      (''start_time'',
       \<lparr>desc_key = ''start_time'', desc_name = ''entity.sensor.start_time.name'',
        desc_icon = None, native_unit_of_measurement = None,
        device_class = Some TIMESTAMP, state_class = None\<rparr>)]"

section \<open>The GPS tracker\<close>

text \<open>\<^verbatim>\<open>if loc and loc.get(k): return float(loc[k])\<close>: \<^term>\<open>Some f\<close> when the
  \<^verbatim>\<open>return\<close> is taken, \<^const>\<open>None\<close> when control falls through.\<close>

definition coord_of :: "(string \<Rightarrow> pyfloat option) \<Rightarrow> string \<Rightarrow> json \<Rightarrow> pyerr + pyfloat option" where
  "coord_of sf k loc =
     (if truthy loc then
        ebind (dict_get loc k JNull) (\<lambda>v.
          if truthy v then
            ebind (getitem loc k) (\<lambda>w. ebind (py_float sf w) (\<lambda>f. Inr (Some f)))
          else Inr None)
      else Inr None)"

text \<open>The body of the \<^verbatim>\<open>try\<close> block shared by \<^verbatim>\<open>latitude\<close> (\<open>k\<close> is
  \<^verbatim>\<open>"latitude"\<close>) and \<^verbatim>\<open>longitude\<close> (\<open>k\<close> is \<^verbatim>\<open>"longitude"\<close>): the two
  properties differ in that key only.\<close>

definition coord_body :: "(string \<Rightarrow> pyfloat option) \<Rightarrow> string \<Rightarrow> json \<Rightarrow> pyerr + pyfloat option" where
  "coord_body sf k d =
     ebind (dict_get d ''state'' JNull) (\<lambda>st.
       ebind (if st = JStr ''RIDE_ACTIVE''
              then ebind (dict_get d ''currentLocation'' JNull) (coord_of sf k)
              else Inr None) (\<lambda>active.
         case active of
           Some f \<Rightarrow> Inr (Some f)
         | None \<Rightarrow>
             if st = JStr ''RIDE_PAUSED'' \<or> st = JStr ''RIDE_STOPPED'' then
               ebind (dict_get d ''pauses'' (JList [])) (\<lambda>pauses.
                 if truthy pauses then
                   ebind (getitem_last pauses) (\<lambda>last_pause.
                     ebind (dict_get last_pause ''lastLocation'' (JDict [])) (coord_of sf k))
                 else Inr None)
             else Inr None))"

text \<open>\<^verbatim>\<open>except (KeyError, TypeError, AttributeError, ValueError)\<close>: only these four are
  turned into \<^verbatim>\<open>None\<close>; any other exception leaves the property.\<close>

definition tracker_caught :: "pyerr \<Rightarrow> bool" where
  "tracker_caught e \<longleftrightarrow> e = KeyError \<or> e = TypeError \<or> e = AttributeError \<or> e = ValueError"

definition coordinate :: "(string \<Rightarrow> pyfloat option) \<Rightarrow> string \<Rightarrow> json \<Rightarrow> pyerr + pyfloat option" where
  "coordinate sf k d =
     (if \<not> truthy d then Inr None
      else case coord_body sf k d of
             Inl e \<Rightarrow> if tracker_caught e then Inr None else Inl e
           | Inr r \<Rightarrow> Inr r)"

definition latitude :: "(string \<Rightarrow> pyfloat option) \<Rightarrow> json \<Rightarrow> pyerr + pyfloat option" where
  "latitude sf d = coordinate sf ''latitude'' d"

definition longitude :: "(string \<Rightarrow> pyfloat option) \<Rightarrow> json \<Rightarrow> pyerr + pyfloat option" where
  "longitude sf d = coordinate sf ''longitude'' d"

text \<open>\<^verbatim>\<open>extra_state_attributes\<close>: each \<^verbatim>\<open>if data.get(k):\<close> adds at most one entry; the
  attribute dict is the list of entries in the order they are added.\<close>

definition attr_ride_status :: "json \<Rightarrow> pyerr + (string \<times> json) list" where
  "attr_ride_status d =
     ebind (dict_get d ''state'' JNull) (\<lambda>v.
       if truthy v then
         ebind (getitem d ''state'') (\<lambda>w. ebind (py_lower w) (\<lambda>l.
           Inr [(''ride_status'', JStr (''entity.sensor.status.state.'' @ l))]))
       else Inr [])"

definition attr_distance_km :: "json \<Rightarrow> pyerr + (string \<times> json) list" where
  "attr_distance_km d =
     ebind (dict_get d ''distance'' JNull) (\<lambda>v.
       if truthy v then
         ebind (getitem d ''distance'') (\<lambda>w. ebind (py_truediv w 1000) (\<lambda>q.
           ebind (py_round (JFloat q) 2) (\<lambda>r. Inr [(''distance_km'', r)])))
       else Inr [])"

definition attr_duration_minutes :: "json \<Rightarrow> pyerr + (string \<times> json) list" where
  "attr_duration_minutes d =
     ebind (dict_get d ''duration'' JNull) (\<lambda>v.
       if truthy v then
         ebind (getitem d ''duration'') (\<lambda>w. ebind (py_truediv w 60) (\<lambda>q.
           ebind (py_round (JFloat q) 1) (\<lambda>r. Inr [(''duration_minutes'', r)])))
       else Inr [])"

definition attr_battery_level :: "json \<Rightarrow> pyerr + (string \<times> json) list" where
  "attr_battery_level d =
     ebind (dict_get d ''currentBatteryLevel'' JNull) (\<lambda>v.
       if truthy v then
         ebind (getitem d ''currentBatteryLevel'') (\<lambda>w. ebind (py_mul w 100) (\<lambda>p.
           ebind (py_round p 1) (\<lambda>r. Inr [(''battery_level'', r)])))
       else Inr [])"

definition attributes_body :: "json \<Rightarrow> pyerr + (string \<times> json) list" where
  "attributes_body d =
     ebind (attr_ride_status d) (\<lambda>a1.
       ebind (attr_distance_km d) (\<lambda>a2.
         ebind (attr_duration_minutes d) (\<lambda>a3.
           ebind (attr_battery_level d) (\<lambda>a4. Inr (a1 @ a2 @ a3 @ a4)))))"

definition extra_state_attributes :: "json \<Rightarrow> pyerr + (string \<times> json) list" where
  "extra_state_attributes d =
     (if \<not> truthy d then Inr []
      else case attributes_body d of Inl e \<Rightarrow> Inr [] | Inr a \<Rightarrow> Inr a)"

section \<open>The coordinator\<close>

subsection \<open>One poll\<close>

text \<open>
  What the network gave: the request raised (a network error, the ten-second timeout), or a
  response arrived with its status and its body read as JSON (\<^const>\<open>None\<close> when
  \<^verbatim>\<open>response.json()\<close> raises).
\<close>

datatype fetch = FetchRaised | Response int "json option"

text \<open>The cause carried by the \<^verbatim>\<open>UpdateFailed\<close> that \<^verbatim>\<open>_async_update_data\<close> raises. Every
  exception of the \<^verbatim>\<open>try\<close> block, its own \<^verbatim>\<open>UpdateFailed\<close> included, is caught and raised
  again as \<^verbatim>\<open>UpdateFailed\<close>, so a left result always is that exception.\<close>

datatype failure = ApiError int | GraphQLError | NoRideData | FetchError | DataError pyerr

fun contains_sub :: "string \<Rightarrow> string \<Rightarrow> bool" where
  "contains_sub needle [] = (needle = [])"
| "contains_sub needle (c # cs) = (prefix needle (c # cs) \<or> contains_sub needle cs)"

text \<open>\<^verbatim>\<open>"errors" in x\<close>: a key of a dict, an element of a list, a substring of a str.\<close>

fun has_errors :: "json \<Rightarrow> pyerr + bool" where
  "has_errors (JDict kv) = Inr (map_of kv ''errors'' \<noteq> None)"
| "has_errors (JList xs) = Inr (JStr ''errors'' \<in> set xs)"
| "has_errors (JStr s) = Inr (contains_sub ''errors'' s)"
| "has_errors v = Inl TypeError"

definition lift_err :: "pyerr + 'a \<Rightarrow> failure + 'a" where
  "lift_err r = (case r of Inl e \<Rightarrow> Inl (DataError e) | Inr x \<Rightarrow> Inr x)"

definition async_update_data :: "fetch \<Rightarrow> failure + json" where
  "async_update_data f =
     (case f of
        FetchRaised \<Rightarrow> Inl FetchError
      | Response status body \<Rightarrow>
          if status \<noteq> 200 then Inl (ApiError status)
          else case body of
            None \<Rightarrow> Inl FetchError
          | Some d \<Rightarrow>
              ebind (lift_err (has_errors d)) (\<lambda>errs.
                if errs then ebind (lift_err (getitem d ''errors'')) (\<lambda>e. Inl GraphQLError)
                else
                  ebind (lift_err (ebind (dict_get d ''data'' (JDict [])) (\<lambda>x. dict_get x ''ride'' JNull)))
                    (\<lambda>ride.
                      if \<not> truthy ride then Inl NoRideData
                      else lift_err (ebind (getitem d ''data'') (\<lambda>x. getitem x ''ride'')))))"

text \<open>
  Modelled from the spec: the refresh of the host framework's \<^verbatim>\<open>DataUpdateCoordinator\<close>,
  which calls \<^verbatim>\<open>_async_update_data\<close> and is not part of the repository. A snapshot replaces
  the cached one and marks availability true; a failure retains the cached snapshot and flips
  availability to false.
\<close>

record poll_state =
  data :: json
  last_update_success :: bool

definition refresh :: "poll_state \<Rightarrow> fetch \<Rightarrow> poll_state" where
  "refresh c f =
     (case async_update_data f of
        Inl e \<Rightarrow> c\<lparr>last_update_success := False\<rparr>
      | Inr ride \<Rightarrow> \<lparr>data = ride, last_update_success = True\<rparr>)"

subsection \<open>The share URL\<close>

definition BASE_URL :: string where
  "BASE_URL = ''https://rider.live''"

definition DEFAULT_SCAN_INTERVAL :: int where
  "DEFAULT_SCAN_INTERVAL = 5"

text \<open>\<^verbatim>\<open>re.search(r'/a/([^/]+)', s)\<close>: the group of the leftmost match, the longest run of
  characters other than \<^verbatim>\<open>/\<close> after the first \<^verbatim>\<open>/a/\<close> that is followed by one.\<close>

fun re_search_share_id :: "string \<Rightarrow> string option" where
  "re_search_share_id [] = None"
| "re_search_share_id (c # cs) =
     (if take 3 (c # cs) = ''/a/'' \<and> takeWhile (\<lambda>x. x \<noteq> CHR ''/'') (drop 3 (c # cs)) \<noteq> []
      then Some (takeWhile (\<lambda>x. x \<noteq> CHR ''/'') (drop 3 (c # cs)))
      else re_search_share_id cs)"

text \<open>
  The path component of \<^verbatim>\<open>urllib.parse.urlparse(url)\<close>, following the standard library:
  leading control characters and spaces are stripped, tab, CR and LF are removed, a scheme
  is split off at the first colon, a network location after \<^verbatim>\<open>//\<close>, then the fragment
  and the query, and for the schemes that use them the parameters of the last path segment.
  The library validates a bracketed host and a non-ASCII network location; that check is the
  parameter \<open>nk\<close>, consulted for such a network location only. \<^const>\<open>None\<close> is the
  library's \<^verbatim>\<open>ValueError\<close>.
\<close>

definition url_clean :: "string \<Rightarrow> string" where
  "url_clean url =
     filter (\<lambda>c. c \<noteq> CHR 0x09 \<and> c \<noteq> CHR 0x0D \<and> c \<noteq> CHR 0x0A)
       (dropWhile (\<lambda>c. of_char c \<le> (32::nat)) url)"

definition ascii_alpha :: "char \<Rightarrow> bool" where
  "ascii_alpha c \<longleftrightarrow>
     (65::nat) \<le> of_char c \<and> of_char c \<le> (90::nat) \<or> (97::nat) \<le> of_char c \<and> of_char c \<le> (122::nat)"

definition scheme_char :: "char \<Rightarrow> bool" where
  "scheme_char c \<longleftrightarrow>
     ascii_alpha c \<or> (48::nat) \<le> of_char c \<and> of_char c \<le> (57::nat)
     \<or> c = CHR ''+'' \<or> c = CHR ''-'' \<or> c = CHR ''.''"

definition split_scheme :: "string \<Rightarrow> string \<times> string" where
  "split_scheme url =
     (let pre = takeWhile (\<lambda>c. c \<noteq> CHR '':'') url
      in if CHR '':'' \<in> set url \<and> pre \<noteq> [] \<and> ascii_alpha (hd pre) \<and> list_all scheme_char pre
         then (map lower_char pre, drop (Suc (length pre)) url)
         else ([], url))"

definition netloc_delim :: "char \<Rightarrow> bool" where
  "netloc_delim c \<longleftrightarrow> c = CHR ''/'' \<or> c = CHR ''?'' \<or> c = CHR ''#''"

definition split_netloc :: "string \<Rightarrow> string \<times> string" where
  "split_netloc url =
     (if take 2 url = ''//''
      then (takeWhile (\<lambda>c. \<not> netloc_delim c) (drop 2 url),
            dropWhile (\<lambda>c. \<not> netloc_delim c) (drop 2 url))
      else ([], url))"

definition netloc_rejected :: "(string \<Rightarrow> bool) \<Rightarrow> string \<Rightarrow> bool" where
  "netloc_rejected nk netloc =
     (let lb = CHR ''['' \<in> set netloc; rb = CHR '']'' \<in> set netloc
      in lb \<noteq> rb \<or> ((lb \<and> rb \<or> \<not> list_all (\<lambda>c. of_char c < (128::nat)) netloc) \<and> \<not> nk netloc))"

definition uses_params :: "string list" where
  "uses_params = [[], ''ftp'', ''hdl'', ''prospero'', ''http'', ''imap'', ''https'', ''shttp'',
     ''rtsp'', ''rtsps'', ''rtspu'', ''sip'', ''sips'', ''mms'', ''sftp'', ''tel'']"

definition split_params :: "string \<Rightarrow> string" where
  "split_params p =
     (if CHR ''/'' \<in> set p then
        (let seg = rev (takeWhile (\<lambda>c. c \<noteq> CHR ''/'') (rev p))
         in if CHR '';'' \<in> set seg
            then take (length p - length seg) p @ takeWhile (\<lambda>c. c \<noteq> CHR '';'') seg
            else p)
      else takeWhile (\<lambda>c. c \<noteq> CHR '';'') p)"

definition urlparse_path :: "(string \<Rightarrow> bool) \<Rightarrow> string \<Rightarrow> string option" where
  "urlparse_path nk url =
     (let (scheme, r1) = split_scheme (url_clean url);
          (netloc, r2) = split_netloc r1;
          p = takeWhile (\<lambda>c. c \<noteq> CHR ''?'') (takeWhile (\<lambda>c. c \<noteq> CHR ''#'') r2)
      in if netloc_rejected nk netloc then None
         else Some (if scheme \<in> set uses_params \<and> CHR '';'' \<in> set p then split_params p else p))"

subsection \<open>Construction\<close>

text \<open>The data of the config entry: the share URL, the language and the scan interval in
  minutes when one is stored.\<close>

record config_entry =
  conf_share_url :: string
  conf_language :: string
  conf_scan_interval :: "int option"

text \<open>What \<^verbatim>\<open>__init__\<close> leaves in the coordinator.\<close>

record share_ref =
  share_url :: string
  share_id :: string
  update_interval :: int

text \<open>The exceptions of \<^verbatim>\<open>__init__\<close>: \<^verbatim>\<open>timedelta(minutes=n)\<close> raises
  \<^verbatim>\<open>OverflowError\<close> beyond 999999999 days, \<^verbatim>\<open>urlparse\<close> raises \<^verbatim>\<open>ValueError\<close> on a
  network location it rejects, and the constructor itself raises
  \<^verbatim>\<open>ValueError("Invalid share URL format")\<close>.\<close>

datatype init_error = IntervalOverflow | UrlValueError | InvalidShareUrlFormat

text \<open>\<^verbatim>\<open>config_entry.data.get(CONF_SCAN_INTERVAL, DEFAULT_SCAN_INTERVAL)\<close>, the overflow of
  \<^verbatim>\<open>timedelta(minutes=n)\<close>, and the removal of one leading \<^verbatim>\<open>@\<close>.\<close>

definition scan_interval_of :: "config_entry \<Rightarrow> int" where
  "scan_interval_of entry =
     (case conf_scan_interval entry of None \<Rightarrow> DEFAULT_SCAN_INTERVAL | Some n \<Rightarrow> n)"

definition timedelta_overflow :: "int \<Rightarrow> bool" where
  "timedelta_overflow minutes \<longleftrightarrow> 999999999 < \<bar>minutes div 1440\<bar>"

definition strip_at :: "string \<Rightarrow> string" where
  "strip_at url = (if take 1 url = ''@'' then drop 1 url else url)"

definition coordinator_init :: "(string \<Rightarrow> bool) \<Rightarrow> config_entry \<Rightarrow> init_error + share_ref" where
  "coordinator_init nk entry =
     (if timedelta_overflow (scan_interval_of entry) then Inl IntervalOverflow
      else case urlparse_path nk (strip_at (conf_share_url entry)) of
             None \<Rightarrow> Inl UrlValueError
           | Some clean_path \<Rightarrow>
               (case re_search_share_id clean_path of
                  None \<Rightarrow> Inl InvalidShareUrlFormat
                | Some m \<Rightarrow>
                    Inr \<lparr>share_url = strip_at (conf_share_url entry), share_id = m,
                      update_interval = scan_interval_of entry\<rparr>))"

subsection \<open>The configuration step\<close>

record user_input =
  in_share_url :: string
  in_language :: string
  in_scan_interval :: int

text \<open>\<^verbatim>\<open>async_step_user\<close>: the form again, with the error under \<^verbatim>\<open>"base"\<close> when there is
  one, or the entry created.\<close>

datatype flow_result = ShowForm "string option" | CreateEntry config_entry

definition async_step_user :: "user_input option \<Rightarrow> flow_result" where
  "async_step_user user_input =
     (case user_input of
        None \<Rightarrow> ShowForm None
      | Some ui \<Rightarrow>
          if \<not> prefix BASE_URL (in_share_url ui) then ShowForm (Some ''invalid_url'')
          else case re_search_share_id (in_share_url ui) of
                 None \<Rightarrow> ShowForm (Some ''invalid_url_format'')
               | Some m \<Rightarrow>
                   CreateEntry \<lparr>conf_share_url = in_share_url ui, conf_language = in_language ui,
                     conf_scan_interval = Some (in_scan_interval ui)\<rparr>)"

section \<open>Notions used in the statements\<close>

text \<open>
  A standard-library parser that accepts no string. It stands for the parameters \<open>sf\<close> and
  \<open>dt\<close> in the closed statements below, whose snapshots hold no string to parse.
\<close>

definition no_parse :: "string \<Rightarrow> 'a option" where
  "no_parse s = None"

text \<open>A poll that fails: \<^verbatim>\<open>_async_update_data\<close> raises \<^verbatim>\<open>UpdateFailed\<close>, and the refresh
  keeps the cached snapshot and marks the coordinator unavailable.\<close>

definition poll_failed :: "poll_state \<Rightarrow> fetch \<Rightarrow> bool" where
  "poll_failed c f \<longleftrightarrow>
     (\<exists>e. async_update_data f = Inl e) \<and> refresh c f = c\<lparr>last_update_success := False\<rparr>"

text \<open>The value under \<^verbatim>\<open>data.ride\<close> of a response body, when the body has one that is
  truthy (not null, not an empty object).\<close>

definition ride_of :: "json \<Rightarrow> json option" where
  "ride_of d =
     (case d of
        JDict kv \<Rightarrow>
          (case map_of kv ''data'' of
             Some (JDict kv') \<Rightarrow>
               (case map_of kv' ''ride'' of
                  Some r \<Rightarrow> if truthy r then Some r else None
                | None \<Rightarrow> None)
           | _ \<Rightarrow> None)
      | _ \<Rightarrow> None)"

text \<open>A field that a truthiness test takes as missing: the key is absent, or its value is
  falsy (\<^verbatim>\<open>None\<close>, \<^verbatim>\<open>0\<close>, \<^verbatim>\<open>0.0\<close>, an empty string or container).\<close>

definition absent_or_falsy :: "json option \<Rightarrow> bool" where
  "absent_or_falsy x = (case x of None \<Rightarrow> True | Some v \<Rightarrow> \<not> truthy v)"

text \<open>\<^verbatim>\<open>round(b * 100, 1)\<close> on a finite double \<open>b\<close>: the product rounded to a double, that double
  rounded half-even to one decimal, and the decimal rounded to a double.\<close>

definition percent_1dp :: "rat \<Rightarrow> rat" where
  "percent_1dp b = fl (of_int (round_half_even (fl (b * 100) * 10)) / 10)"

text \<open>A network-location check that accepts everything. It stands for the parameter
  \<open>nk\<close> in the closed statements below, whose URLs have a plain ASCII host that the
  library does not check.\<close>

definition accept_netloc :: "string \<Rightarrow> bool" where
  "accept_netloc s = True"

text \<open>A path segment free of the characters that \<^verbatim>\<open>urlparse\<close> gives a meaning to or
  removes: the slash, the query and fragment marks, tab, CR and LF.\<close>

definition plain_segment :: "string \<Rightarrow> bool" where
  "plain_segment s \<longleftrightarrow>
     list_all (\<lambda>c. c \<noteq> CHR ''/'' \<and> c \<noteq> CHR ''?'' \<and> c \<noteq> CHR ''#''
       \<and> c \<noteq> CHR 0x09 \<and> c \<noteq> CHR 0x0D \<and> c \<noteq> CHR 0x0A) s"

section \<open>Rounding to a double\<close>

lemma bitlen_powi_bounds:
  assumes "0 < a"
  shows "(2::rat) powi (bitlen a - 1) \<le> of_int a" and "of_int a < (2::rat) powi (bitlen a)"
proof -
  have b: "2 ^ nat (bitlen a - 1) \<le> a" "a < 2 ^ nat (bitlen a)"
    using bitlen_bounds [OF assms] by auto
  have pos: "1 \<le> bitlen a"
    using assms bitlen_eq_zero_iff [of a] bitlen_nonneg [of a] by linarith
  have "(2::rat) powi (bitlen a - 1) = 2 ^ nat (bitlen a - 1)"
    using pos by (simp add: power_int_nonneg_exp)
  also have "\<dots> = of_int (2 ^ nat (bitlen a - 1))" by simp
  also have "\<dots> \<le> of_int a" using b(1) by (simp only: of_int_le_iff)
  finally show "(2::rat) powi (bitlen a - 1) \<le> of_int a" .
  have "(of_int a :: rat) < of_int (2 ^ nat (bitlen a))" using b(2) by (simp only: of_int_less_iff)
  also have "\<dots> = 2 ^ nat (bitlen a)" by simp
  also have "\<dots> = (2::rat) powi (bitlen a)"
    using pos by (simp add: power_int_nonneg_exp)
  finally show "of_int a < (2::rat) powi (bitlen a)" .
qed

lemma ilog2_bounds:
  assumes "0 < q"
  shows "2 powi (ilog2 q) \<le> q" and "q < 2 powi (ilog2 q + 1)"
proof -
  obtain a b where ab: "quotient_of q = (a, b)" by (cases "quotient_of q")
  have bpos: "0 < b" using ab by (rule quotient_of_denom_pos)
  have q: "q = of_int a / of_int b" using ab by (rule quotient_of_div)
  have apos: "0 < a" using assms bpos q by (simp add: zero_less_divide_iff)
  define d where "d = bitlen a - bitlen b"
  have B: "0 < (of_int b :: rat)" using bpos by simp
  have lo: "2 powi (d - 1) \<le> q"
  proof -
    have "(2::rat) powi (d - 1) * of_int b \<le> 2 powi (d - 1) * 2 powi (bitlen b)"
      using bitlen_powi_bounds(2) [OF bpos] by (intro mult_left_mono) auto
    also have "\<dots> = 2 powi (bitlen a - 1)"
      by (simp add: d_def power_int_add [symmetric])
    also have "\<dots> \<le> of_int a" using bitlen_powi_bounds(1) [OF apos] .
    finally show ?thesis using B by (simp add: q pos_le_divide_eq)
  qed
  have hi: "q < 2 powi (d + 1)"
  proof -
    have "(of_int a :: rat) < 2 powi (bitlen a)" using bitlen_powi_bounds(2) [OF apos] .
    also have "\<dots> = 2 powi (d + 1) * 2 powi (bitlen b - 1)"
      by (simp add: d_def power_int_add [symmetric])
    also have "\<dots> \<le> 2 powi (d + 1) * of_int b"
      using bitlen_powi_bounds(1) [OF bpos] by (intro mult_left_mono) auto
    finally show ?thesis using B by (simp add: q pos_divide_less_eq)
  qed
  have il: "ilog2 q = (if 2 powi d \<le> q then d else d - 1)"
    by (simp add: ilog2_def ab d_def Let_def)
  show "2 powi (ilog2 q) \<le> q" using lo by (simp add: il)
  show "q < 2 powi (ilog2 q + 1)" using hi by (auto simp add: il)
qed

lemma ilog2_less:
  assumes "0 < q" "q < 2 powi n"
  shows "ilog2 q < n"
proof (rule ccontr)
  assume "\<not> ilog2 q < n"
  then have "n \<le> ilog2 q" by simp
  then have "(2::rat) powi n \<le> 2 powi (ilog2 q)" by (intro power_int_increasing) auto
  with ilog2_bounds(1) [OF assms(1)] assms(2) show False by linarith
qed

lemma ilog2_ge:
  assumes "0 < q" "2 powi n \<le> q"
  shows "n \<le> ilog2 q"
proof (rule ccontr)
  assume "\<not> n \<le> ilog2 q"
  then have "ilog2 q + 1 \<le> n" by simp
  then have "(2::rat) powi (ilog2 q + 1) \<le> 2 powi n" by (intro power_int_increasing) auto
  with ilog2_bounds(2) [OF assms(1)] assms(2) show False by linarith
qed

lemma round_half_even_of_int: "round_half_even (of_int m) = m"
  by (simp add: round_half_even_def)

lemma round_half_even_ge: "of_int m \<le> t \<Longrightarrow> m \<le> round_half_even t"
proof -
  assume "of_int m \<le> t"
  then have "m \<le> \<lfloor>t\<rfloor>" by (simp add: le_floor_iff)
  then show ?thesis by (simp add: round_half_even_def Let_def)
qed

lemma round_half_even_upper: "of_int (round_half_even t) \<le> t + 1 / 2"
proof -
  define f where "f = \<lfloor>t\<rfloor>"
  have 1: "of_int f \<le> t" by (simp add: f_def)
  have r: "round_half_even t =
    (if t - of_int f < 1 / 2 then f else if 1 / 2 < t - of_int f then f + 1
     else if even f then f else f + 1)"
    by (simp add: round_half_even_def Let_def f_def)
  show ?thesis
  proof (cases "t - of_int f < 1 / 2")
    case True
    then show ?thesis using 1 by (simp add: r)
  next
    case False
    then have "of_int (f + 1) \<le> t + 1 / 2" by simp
    moreover have "of_int f \<le> t + 1 / 2" using 1 by simp
    ultimately show ?thesis by (simp only: r split: if_splits) auto
  qed
qed

lemma round_half_even_lt: "t + 1 / 2 < of_int m \<Longrightarrow> round_half_even t < m"
proof -
  assume a: "t + 1 / 2 < of_int m"
  have "(of_int (round_half_even t) :: rat) < of_int m"
    using round_half_even_upper [of t] a by linarith
  then show ?thesis by (simp only: of_int_less_iff)
qed

lemma fl_ge_grid:
  assumes "q \<noteq> 0" "of_int m * 2 powi (ulp_exp q) \<le> q"
  shows "of_int m * 2 powi (ulp_exp q) \<le> fl q"
proof -
  let ?u = "(2::rat) powi (ulp_exp q)"
  have u: "0 < ?u" by simp
  have "of_int m \<le> q / ?u" using assms(2) u by (simp add: pos_le_divide_eq)
  then have "m \<le> round_half_even (q / ?u)" by (rule round_half_even_ge)
  then have "(of_int m :: rat) \<le> of_int (round_half_even (q / ?u))" by (simp only: of_int_le_iff)
  then have "of_int m * ?u \<le> of_int (round_half_even (q / ?u)) * ?u"
    using u by (intro mult_right_mono) auto
  then show ?thesis using assms(1) by (simp add: fl_def)
qed

lemma fl_lt_grid:
  assumes "q \<noteq> 0" "q + 2 powi (ulp_exp q) / 2 < of_int m * 2 powi (ulp_exp q)"
  shows "fl q < of_int m * 2 powi (ulp_exp q)"
proof -
  let ?u = "(2::rat) powi (ulp_exp q)"
  have u: "0 < ?u" by simp
  have "(q + ?u / 2) / ?u < of_int m" using assms(2) u by (simp only: pos_divide_less_eq)
  moreover have "(q + ?u / 2) / ?u = q / ?u + 1 / 2" using u by (simp add: add_divide_distrib)
  ultimately have "q / ?u + 1 / 2 < of_int m" by simp
  then have "round_half_even (q / ?u) < m" by (rule round_half_even_lt)
  then have "(of_int (round_half_even (q / ?u)) :: rat) < of_int m" by (simp only: of_int_less_iff)
  then have "of_int (round_half_even (q / ?u)) * ?u < of_int m * ?u"
    using u by (intro mult_strict_right_mono) auto
  then show ?thesis using assms(1) by (simp add: fl_def)
qed

lemma fl_grid_fix:
  assumes "q = of_int m * 2 powi (ulp_exp q)"
  shows "fl q = q"
proof (cases "q = 0")
  case True
  then show ?thesis by (simp add: fl_def)
next
  case False
  let ?u = "(2::rat) powi (ulp_exp q)"
  have u: "?u \<noteq> 0" by simp
  have "q / ?u = of_int m" using assms u by (metis nonzero_mult_div_cancel_right)
  then have "round_half_even (q / ?u) = m" by (simp add: round_half_even_of_int)
  then show ?thesis using False assms by (simp add: fl_def)
qed


lemma round_half_even_le: "t \<le> of_int m \<Longrightarrow> round_half_even t \<le> m"
proof -
  assume a: "t \<le> of_int m"
  define f where "f = \<lfloor>t\<rfloor>"
  have r: "round_half_even t =
    (if t - of_int f < 1 / 2 then f else if 1 / 2 < t - of_int f then f + 1
     else if even f then f else f + 1)"
    by (simp add: round_half_even_def Let_def f_def)
  have fm: "f \<le> m" using a by (simp add: f_def floor_le_iff)
  show ?thesis
  proof (cases "t = of_int f")
    case True
    then show ?thesis using fm by (simp add: round_half_even_of_int)
  next
    case False
    have "of_int f \<le> t" by (simp add: f_def)
    with False have "of_int f < t" by simp
    with a have "(of_int f :: rat) < of_int m" by linarith
    then have "f < m" by (simp only: of_int_less_iff)
    then show ?thesis by (simp add: r)
  qed
qed

lemma fl_le_grid:
  assumes "q \<noteq> 0" "q \<le> of_int m * 2 powi (ulp_exp q)"
  shows "fl q \<le> of_int m * 2 powi (ulp_exp q)"
proof -
  let ?u = "(2::rat) powi (ulp_exp q)"
  have u: "0 < ?u" by simp
  have "q / ?u \<le> of_int m" using assms(2) u by (simp add: pos_divide_le_eq)
  then have "round_half_even (q / ?u) \<le> m" by (rule round_half_even_le)
  then have "(of_int (round_half_even (q / ?u)) :: rat) \<le> of_int m" by (simp only: of_int_le_iff)
  then have "of_int (round_half_even (q / ?u)) * ?u \<le> of_int m * ?u"
    using u by (intro mult_right_mono) auto
  then show ?thesis using assms(1) by (simp add: fl_def)
qed

lemma int_on_grid:
  assumes "e \<le> 0"
  shows "\<exists>m. (of_int k :: rat) = of_int m * 2 powi e"
proof -
  have "(2::rat) powi (- e) = 2 ^ nat (- e)"
    using assms by (intro power_int_nonneg_exp) simp
  then have "(2::rat) powi e = inverse (2 ^ nat (- e))"
    using power_int_minus [of "2::rat" "- e"] by simp
  then have "(of_int (k * 2 ^ nat (- e)) :: rat) * 2 powi e = of_int k" by simp
  then show ?thesis by metis
qed

lemma ulp_exp_le:
  assumes "q \<noteq> 0" "\<bar>q\<bar> < 2 powi n" "- 1022 < n"
  shows "ulp_exp q \<le> n - 53"
proof -
  have "ilog2 \<bar>q\<bar> < n" using assms by (intro ilog2_less) auto
  then show ?thesis using assms(3) by (simp add: ulp_exp_def)
qed

lemma fl_nonneg:
  assumes "0 \<le> q"
  shows "0 \<le> fl q"
proof (cases "q = 0")
  case True
  then show ?thesis by (simp add: fl_def)
next
  case False
  then show ?thesis using fl_ge_grid [of q 0] assms by simp
qed

lemma fl_of_int_grid:
  assumes "ulp_exp (of_int n) \<le> 0"
  shows "fl (of_int n) = of_int n"
proof -
  obtain m where "(of_int n :: rat) = of_int m * 2 powi (ulp_exp (of_int n))"
    using int_on_grid [OF assms] by blast
  then show ?thesis by (rule fl_grid_fix)
qed

lemma fl_of_int_small:
  assumes "\<bar>n\<bar> \<le> 2 ^ 53"
  shows "fl (of_int n) = of_int n"
proof (cases "\<bar>n\<bar> = 2 ^ 53")
  case True
  then have "n = 2 ^ 53 \<or> n = - (2 ^ 53)" by linarith
  moreover have "fl (2 ^ 53) = 2 ^ 53" by code_simp
  moreover have "fl (- (2 ^ 53)) = - (2 ^ 53)" by code_simp
  ultimately show ?thesis by auto
next
  case False
  show ?thesis
  proof (cases "n = 0")
    case True
    then show ?thesis by (simp add: fl_def)
  next
    case nz: False
    have "\<bar>n\<bar> < 2 ^ 53" using assms False by simp
    then have "(of_int \<bar>n\<bar> :: rat) < of_int (2 ^ 53)" by (simp only: of_int_less_iff)
    then have "\<bar>of_int n :: rat\<bar> < 2 powi 53" by simp
    then have "ulp_exp (of_int n) \<le> 53 - 53"
      using nz by (intro ulp_exp_le) auto
    then show ?thesis by (intro fl_of_int_grid) simp
  qed
qed

lemma fl_floor_int:
  assumes "0 < q" "ulp_exp q \<le> 0" "of_int k \<le> q" "q + 2 powi (ulp_exp q) / 2 < of_int k + 1"
  shows "\<lfloor>fl q\<rfloor> = k"
proof -
  obtain m where m: "(of_int k :: rat) = of_int m * 2 powi (ulp_exp q)"
    using int_on_grid [OF assms(2)] by blast
  obtain m' where m': "(of_int (k + 1) :: rat) = of_int m' * 2 powi (ulp_exp q)"
    using int_on_grid [OF assms(2)] by blast
  have "of_int m * 2 powi (ulp_exp q) \<le> fl q"
    using assms(1,3) by (intro fl_ge_grid) (auto simp add: m [symmetric])
  then have lo: "of_int k \<le> fl q" by (simp add: m [symmetric])
  have "fl q < of_int m' * 2 powi (ulp_exp q)"
    using assms(1,4) by (intro fl_lt_grid) (auto simp add: m' [symmetric])
  then have hi: "fl q < of_int k + 1" by (simp add: m' [symmetric])
  show ?thesis using lo hi by (simp add: floor_unique)
qed

lemma fl_div60_floor:
  assumes "0 \<le> s" "s < 60 * 2 ^ 48"
  shows "\<lfloor>fl (of_int s / 60)\<rfloor> = s div 60"
proof (cases "s = 0")
  case True
  then show ?thesis by (simp add: fl_def)
next
  case False
  define q :: rat where "q = of_int s / 60"
  define k where "k = s div 60"
  have spos: "0 < s" using assms(1) False by simp
  have qpos: "0 < q" using spos by (simp add: q_def)
  have s: "s = 60 * k + s mod 60" by (simp add: k_def)
  have r: "0 \<le> s mod 60" "s mod 60 \<le> 59" by auto
  have "of_int s = (60 * of_int k + of_int (s mod 60) :: rat)"
    by (metis s of_int_add of_int_mult of_int_numeral)
  then have qk: "q = of_int k + of_int (s mod 60) / 60" by (simp add: q_def)
  have "(of_int (s mod 60) :: rat) \<le> of_int 59" using r(2) by (simp only: of_int_le_iff)
  then have qhi: "q \<le> of_int k + 59 / 60" by (simp add: qk)
  have "(0::rat) \<le> of_int (s mod 60)" using r(1) by simp
  then have qlo: "of_int k \<le> q" by (simp add: qk)
  have "(of_int s :: rat) < of_int (60 * 2 ^ 48)" using assms(2) by (simp only: of_int_less_iff)
  then have "q < 2 powi 48" by (simp add: q_def)
  then have u: "ulp_exp q \<le> 48 - 53" using qpos by (intro ulp_exp_le) auto
  have "(2::rat) powi (ulp_exp q) \<le> 2 powi (- 5)"
    using u by (intro power_int_increasing) auto
  then have "(2::rat) powi (ulp_exp q) \<le> 1 / 32" by (simp add: power_int_minus)
  then have "q + 2 powi (ulp_exp q) / 2 < of_int k + 1" using qhi by linarith
  then have "\<lfloor>fl q\<rfloor> = k" using qpos u qlo by (intro fl_floor_int) auto
  then show ?thesis by (simp add: q_def k_def)
qed


lemma fl_div60_floor_double:
  assumes "fl x = x" "0 \<le> x" "x < 60 * 2 ^ 48"
  shows "\<lfloor>fl (x / 60)\<rfloor> = \<lfloor>x / 60\<rfloor>"
proof (cases "x = 0")
  case True
  then show ?thesis by (simp add: fl_def)
next
  case False
  define q where "q = x / 60"
  define k where "k = \<lfloor>q\<rfloor>"
  have xpos: "0 < x" using assms(2) False by simp
  have qpos: "0 < q" using xpos by (simp add: q_def)
  have klo: "of_int k \<le> q" by (simp add: k_def)
  have khi: "q < of_int k + 1" by (simp add: k_def) linarith
  have k0: "0 \<le> k" using qpos by (simp add: k_def)
  have "q < 2 powi 48" using assms(3) by (simp add: q_def)
  then have uq: "ulp_exp q \<le> 48 - 53" using qpos by (intro ulp_exp_le) auto
  have "(2::rat) powi (ulp_exp q) \<le> 2 powi (- 5)"
    using uq by (intro power_int_increasing) auto
  then have uq32: "(2::rat) powi (ulp_exp q) \<le> 1 / 32" by (simp add: power_int_minus)
  have goal: "q + 2 powi (ulp_exp q) / 2 < of_int k + 1"
  proof (cases "x < 1")
    case True
    then have "q < 1 / 60" by (simp add: q_def)
    moreover have "(0::rat) \<le> of_int k" using k0 by simp
    ultimately show ?thesis using uq32 by linarith
  next
    case x1: False
    define ex where "ex = ilog2 x"
    define a where "a = ex - 52"
    have "(2::rat) powi 0 \<le> x" using x1 by simp
    then have ex0: "0 \<le> ex" unfolding ex_def using xpos by (intro ilog2_ge) auto
    have "x < 2 powi 54" using assms(3) by simp
    then have "ex < 54" unfolding ex_def using xpos by (intro ilog2_less) auto
    then have a1: "a \<le> 1" by (simp add: a_def)
    have ax: "ulp_exp x = a" using ex0 xpos by (simp add: ulp_exp_def a_def ex_def)
    define M where "M = round_half_even (x / 2 powi a)"
    have xM: "x = of_int M * 2 powi a"
      using assms(1) False by (simp add: fl_def ax M_def)
    have "\<exists>N. (of_int (60 * (k + 1)) :: rat) = of_int N * 2 powi a"
    proof (cases "a \<le> 0")
      case True
      then show ?thesis by (rule int_on_grid)
    next
      case False
      with a1 have "a = 1" by simp
      then have "(of_int (60 * (k + 1)) :: rat) = of_int (30 * (k + 1)) * 2 powi a" by simp
      then show ?thesis by blast
    qed
    then obtain N where N: "(of_int (60 * (k + 1)) :: rat) = of_int N * 2 powi a" by blast
    have u: "0 < (2::rat) powi a" by simp
    have "x < of_int (60 * (k + 1))" using khi by (simp add: q_def)
    then have "of_int M * 2 powi a < of_int N * (2::rat) powi a" using xM N by simp
    then have "(of_int M :: rat) < of_int N" using u by (simp only: mult_less_cancel_right_pos)
    then have "M + 1 \<le> N" by simp
    then have "(of_int (M + 1) :: rat) \<le> of_int N" by (simp only: of_int_le_iff)
    then have "of_int (M + 1) * 2 powi a \<le> of_int N * (2::rat) powi a"
      using u by (intro mult_right_mono) auto
    then have step: "x + 2 powi a \<le> of_int (60 * (k + 1))"
      using xM N by (simp add: algebra_simps)
    have "x < 2 powi (ex + 1)" unfolding ex_def using xpos by (intro ilog2_bounds(2))
    then have "q < 2 powi (ex + 1) / 60" by (simp add: q_def)
    also have "\<dots> \<le> 2 powi (ex + 1) / 32" by (intro divide_left_mono) auto
    also have "\<dots> = 2 powi (ex - 4)"
    proof -
      have "(2::rat) powi (ex - 4 + 5) = 2 powi (ex - 4) * 2 powi 5"
        by (rule power_int_add) simp
      moreover have "ex - 4 + 5 = ex + 1" by simp
      ultimately have "(2::rat) powi (ex + 1) = 2 powi (ex - 4) * 32" by simp
      then show ?thesis by simp
    qed
    finally have "q < 2 powi (ex - 4)" .
    then have "ulp_exp q \<le> (ex - 4) - 53" using qpos ex0 by (intro ulp_exp_le) auto
    then have "ulp_exp q \<le> a - 5" by (simp add: a_def)
    then have "(2::rat) powi (ulp_exp q) \<le> 2 powi (a - 5)"
      by (intro power_int_increasing) auto
    also have "\<dots> = 2 powi a / 32"
    proof -
      have "(2::rat) powi (a - 5 + 5) = 2 powi (a - 5) * 2 powi 5"
        by (rule power_int_add) simp
      then have "(2::rat) powi a = 2 powi (a - 5) * 32" by simp
      then show ?thesis by simp
    qed
    finally have "(2::rat) powi (ulp_exp q) \<le> 2 powi a / 32" .
    moreover have "0 < (2::rat) powi (ulp_exp q)" by simp
    ultimately have "30 * 2 powi (ulp_exp q) < (2::rat) powi a" by linarith
    then have "60 * (q + 2 powi (ulp_exp q) / 2) < x + 2 powi a"
      by (simp add: q_def)
    then have "60 * (q + 2 powi (ulp_exp q) / 2) < 60 * (of_int k + 1)" using step by simp
    then show ?thesis by simp
  qed
  have "\<lfloor>fl q\<rfloor> = k" using qpos uq klo goal by (intro fl_floor_int) auto
  then show ?thesis by (simp add: q_def k_def)
qed

section \<open>The poll\<close>

lemma poll_failedI: "async_update_data f = Inl e \<Longrightarrow> poll_failed c f"
  by (simp add: poll_failed_def refresh_def)

lemma update_not_200: "status \<noteq> 200 \<Longrightarrow> async_update_data (Response status body) = Inl (ApiError status)"
  by (simp add: async_update_data_def)

lemma update_no_body: "\<exists>e. async_update_data (Response status None) = Inl e"
  by (simp add: async_update_data_def)

lemma update_errors:
  assumes "map_of kv ''errors'' \<noteq> None"
  shows "\<exists>e. async_update_data (Response status (Some (JDict kv))) = Inl e"
  using assms by (auto simp add: async_update_data_def lift_err_def)

lemma update_no_ride:
  assumes "ride_of d = None"
  shows "\<exists>e. async_update_data (Response status (Some d)) = Inl e"
proof (cases "status = 200")
  case False
  then show ?thesis by (simp add: async_update_data_def)
next
  case True
  show ?thesis
  proof (cases d)
    case (JDict kv)
    show ?thesis
    proof (cases "map_of kv ''errors''")
      case (Some v)
      then show ?thesis using update_errors [of kv status] JDict by simp
    next
      case None
      show ?thesis
      proof (cases "map_of kv ''data''")
        case n: None
        then show ?thesis using None JDict True
          by (simp add: async_update_data_def lift_err_def)
      next
        case (Some x)
        show ?thesis
        proof (cases x)
          case d2: (JDict kv')
          then show ?thesis using None JDict True Some assms
            by (auto simp add: async_update_data_def lift_err_def ride_of_def
                split: option.splits if_splits)
        qed (use None JDict True Some in \<open>simp_all add: async_update_data_def lift_err_def\<close>)
      qed
    qed
  next
    case (JList xs)
    then show ?thesis using True
      by (cases "JStr ''errors'' \<in> set xs") (simp_all add: async_update_data_def lift_err_def)
  next
    case (JStr s)
    then show ?thesis using True
      by (cases "contains_sub ''errors'' s") (simp_all add: async_update_data_def lift_err_def)
  qed (use True in \<open>simp_all add: async_update_data_def lift_err_def\<close>)
qed

text \<open>
  C1. Each failure condition of a poll makes the refresh fail and never succeed: a status
  that is not 2xx, a top-level \<^verbatim>\<open>errors\<close> field, no \<^verbatim>\<open>data.ride\<close> in the body, a body
  that is not JSON, and a request that raised. \<^verbatim>\<open>_async_update_data\<close> raises
  \<^verbatim>\<open>UpdateFailed\<close>; the refresh then marks the coordinator unavailable and keeps the cached
  snapshot unchanged.
\<close>

theorem poll_failure_classified:
  "(\<not> (200 \<le> status \<and> status < 300) \<longrightarrow> poll_failed c (Response status body))
   \<and> (map_of kv ''errors'' \<noteq> None \<longrightarrow> poll_failed c (Response status (Some (JDict kv))))
   \<and> (ride_of d = None \<longrightarrow> poll_failed c (Response status (Some d)))
   \<and> poll_failed c (Response status None)
   \<and> poll_failed c FetchRaised"
proof -
  have 1: "poll_failed c (Response status body)" if "\<not> (200 \<le> status \<and> status < 300)"
  proof -
    from that have "status \<noteq> 200" by auto
    then show ?thesis using update_not_200 poll_failedI by blast
  qed
  have 2: "poll_failed c (Response status (Some (JDict kv)))" if "map_of kv ''errors'' \<noteq> None"
    using update_errors [OF that] poll_failedI by blast
  have 3: "poll_failed c (Response status (Some d))" if "ride_of d = None"
    using update_no_ride [OF that] poll_failedI by blast
  have 4: "poll_failed c (Response status None)"
    using update_no_body poll_failedI by blast
  have 5: "poll_failed c FetchRaised"
    by (rule poll_failedI [of _ FetchError]) (simp add: async_update_data_def)
  show ?thesis using 1 2 3 4 5 by blast
qed

text \<open>The failure conditions are the only ones: a response with status 200 whose body is a
  JSON object without \<^verbatim>\<open>errors\<close> and with a truthy \<^verbatim>\<open>data.ride\<close> replaces the snapshot.\<close>

lemma poll_succeeds:
  assumes "map_of kv ''errors'' = None" "ride_of (JDict kv) = Some r"
  shows "async_update_data (Response 200 (Some (JDict kv))) = Inr r"
    and "refresh c (Response 200 (Some (JDict kv))) = \<lparr>data = r, last_update_success = True\<rparr>"
proof -
  obtain kv' where d: "map_of kv ''data'' = Some (JDict kv')" and r: "map_of kv' ''ride'' = Some r"
    and t: "truthy r"
    using assms(2)
    by (auto simp add: ride_of_def split: option.splits json.splits if_splits)
  show u: "async_update_data (Response 200 (Some (JDict kv))) = Inr r"
    using assms(1) d r t by (simp add: async_update_data_def lift_err_def)
  show "refresh c (Response 200 (Some (JDict kv))) = \<lparr>data = r, last_update_success = True\<rparr>"
    by (simp add: refresh_def u)
qed

text \<open>A status outside 2xx with a well-formed body, a body with \<^verbatim>\<open>errors\<close>, a body whose
  ride is null, and an unavailable service with no JSON body: the cached snapshot stays.\<close>

theorem poll_failure_classified_witness:
  "poll_failed \<lparr>data = JDict [(''state'', JStr ''RIDE_ACTIVE'')], last_update_success = True\<rparr>
     (Response 503 (Some (JDict [(''data'', JDict [(''ride'', JDict [(''state'', JStr ''RIDE_PAUSED'')])])])))
   \<and> poll_failed \<lparr>data = JDict [(''state'', JStr ''RIDE_ACTIVE'')], last_update_success = True\<rparr>
     (Response 200 (Some (JDict [(''errors'', JList [JStr ''x'']), (''data'', JNull)])))
   \<and> poll_failed \<lparr>data = JDict [(''state'', JStr ''RIDE_ACTIVE'')], last_update_success = True\<rparr>
     (Response 200 (Some (JDict [(''data'', JDict [(''ride'', JNull)])])))
   \<and> refresh \<lparr>data = JDict [(''state'', JStr ''RIDE_ACTIVE'')], last_update_success = True\<rparr>
        (Response 503 None)
      = \<lparr>data = JDict [(''state'', JStr ''RIDE_ACTIVE'')], last_update_success = False\<rparr>"
proof -
  let ?c = "\<lparr>data = JDict [(''state'', JStr ''RIDE_ACTIVE'')], last_update_success = True\<rparr>"
  have a: "\<not> (200 \<le> (503::int) \<and> (503::int) < 300)" by simp
  have b: "map_of [(''errors'', JList [JStr ''x'']), (''data'', JNull)] ''errors'' \<noteq> None" by simp
  have c: "ride_of (JDict [(''data'', JDict [(''ride'', JNull)])]) = None" by (simp add: ride_of_def)
  note t1 = poll_failure_classified [where status = 503 and c = ?c and body =
      "Some (JDict [(''data'', JDict [(''ride'', JDict [(''state'', JStr ''RIDE_PAUSED'')])])])"]
  note t2 = poll_failure_classified [where status = 200 and c = ?c
      and kv = "[(''errors'', JList [JStr ''x'']), (''data'', JNull)]"]
  note t3 = poll_failure_classified [where status = 200 and c = ?c
      and d = "JDict [(''data'', JDict [(''ride'', JNull)])]"]
  note t4 = poll_failure_classified [where status = 503 and c = ?c]
  have 1: "poll_failed ?c (Response 503 (Some (JDict [(''data'', JDict [(''ride'', JDict [(''state'', JStr ''RIDE_PAUSED'')])])])))"
    using t1 a by blast
  have 2: "poll_failed ?c (Response 200 (Some (JDict [(''errors'', JList [JStr ''x'']), (''data'', JNull)])))"
    using t2 b by blast
  have 3: "poll_failed ?c (Response 200 (Some (JDict [(''data'', JDict [(''ride'', JNull)])])))"
    using t3 c by blast
  have "poll_failed ?c (Response 503 None)" using t4 a by blast
  then have 4: "refresh ?c (Response 503 None) = ?c\<lparr>last_update_success := False\<rparr>"
    by (simp add: poll_failed_def)
  show ?thesis using 1 2 3 4 by simp
qed

section \<open>The tracker's location\<close>

lemma not_overflows_small: "\<bar>n\<bar> \<le> 2 ^ 53 \<Longrightarrow> \<not> overflows (of_int n)"
proof -
  assume "\<bar>n\<bar> \<le> 2 ^ 53"
  then have "(of_int \<bar>n\<bar> :: rat) \<le> of_int (2 ^ 53)" by (simp only: of_int_le_iff)
  then have "\<bar>of_int n :: rat\<bar> \<le> 2 ^ 53" by simp
  moreover have "(2::rat) ^ 53 < 2 ^ 1024 - 2 ^ 970" by simp
  ultimately show ?thesis by (simp add: overflows_def)
qed

lemma int_to_float_small: "\<bar>n\<bar> \<le> 2 ^ 53 \<Longrightarrow> int_to_float n = Inr (Fin (of_int n))"
  by (simp add: int_to_float_def not_overflows_small fl_of_int_small)

lemma coord_of_float:
  "map_of loc k = Some (JFloat f) \<Longrightarrow> f \<noteq> Fin 0 \<Longrightarrow> coord_of sf k (JDict loc) = Inr (Some f)"
  by (auto simp add: coord_of_def)

lemma coord_of_int:
  "map_of loc k = Some (JInt n) \<Longrightarrow> n \<noteq> 0 \<Longrightarrow> \<bar>n\<bar> \<le> 2 ^ 53
     \<Longrightarrow> coord_of sf k (JDict loc) = Inr (Some (Fin (of_int n)))"
  by (auto simp add: coord_of_def int_to_float_small)

lemma coord_of_absent:
  "absent_or_falsy (map_of loc k) \<Longrightarrow> coord_of sf k (JDict loc) = Inr None"
  by (auto simp add: coord_of_def absent_or_falsy_def split: option.splits)

lemma coord_of_falsy: "\<not> truthy v \<Longrightarrow> coord_of sf k v = Inr None"
  by (simp add: coord_of_def)

lemma coord_of_value:
  "map_of loc k = Some v \<Longrightarrow> truthy v
     \<Longrightarrow> coord_of sf k (JDict loc) = ebind (py_float sf v) (\<lambda>f. Inr (Some f))"
  by (auto simp add: coord_of_def)

lemma coord_of_converted:
  "map_of loc k = Some v \<Longrightarrow> truthy v \<Longrightarrow> py_float sf v = Inr x
     \<Longrightarrow> coord_of sf k (JDict loc) = Inr (Some x)"
  by (simp add: coord_of_value)

lemma coord_of_rejected:
  "map_of loc k = Some v \<Longrightarrow> truthy v \<Longrightarrow> py_float sf v = Inl e
     \<Longrightarrow> coord_of sf k (JDict loc) = Inl e"
  by (simp add: coord_of_value)

lemma coordinate_active_caught:
  assumes "map_of kv ''state'' = Some (JStr ''RIDE_ACTIVE'')"
    and "coord_of sf k (case map_of kv ''currentLocation'' of None \<Rightarrow> JNull | Some v \<Rightarrow> v) = Inl e"
    and "tracker_caught e"
  shows "coordinate sf k (JDict kv) = Inr None"
proof -
  have "kv \<noteq> []" using assms(1) by auto
  then show ?thesis using assms
    by (simp add: coordinate_def coord_body_def)
qed

lemma coordinate_paused_caught:
  assumes "map_of kv ''state'' = Some (JStr st)" "st = ''RIDE_PAUSED'' \<or> st = ''RIDE_STOPPED''"
    and "map_of kv ''pauses'' = Some (JList ps)" "ps \<noteq> []" "last ps = JDict p"
    and "coord_of sf k (case map_of p ''lastLocation'' of None \<Rightarrow> JDict [] | Some v \<Rightarrow> v) = Inl e"
    and "tracker_caught e"
  shows "coordinate sf k (JDict kv) = Inr None"
proof -
  have "kv \<noteq> []" using assms(1) by auto
  then show ?thesis using assms
    by (auto simp add: coordinate_def coord_body_def)
qed

lemma coordinate_active:
  assumes "map_of kv ''state'' = Some (JStr ''RIDE_ACTIVE'')"
    and "coord_of sf k (case map_of kv ''currentLocation'' of None \<Rightarrow> JNull | Some v \<Rightarrow> v) = Inr r"
  shows "coordinate sf k (JDict kv) = Inr r"
proof -
  have "kv \<noteq> []" using assms(1) by auto
  then show ?thesis using assms
    by (cases r) (simp_all add: coordinate_def coord_body_def)
qed

lemma coordinate_paused:
  assumes "map_of kv ''state'' = Some (JStr st)" "st = ''RIDE_PAUSED'' \<or> st = ''RIDE_STOPPED''"
    and "map_of kv ''pauses'' = Some (JList ps)" "ps \<noteq> []" "last ps = JDict p"
    and "coord_of sf k (case map_of p ''lastLocation'' of None \<Rightarrow> JDict [] | Some v \<Rightarrow> v) = Inr r"
  shows "coordinate sf k (JDict kv) = Inr r"
proof -
  have "kv \<noteq> []" using assms(1) by auto
  then show ?thesis using assms
    by (auto simp add: coordinate_def coord_body_def)
qed

lemma coordinate_last_only:
  assumes "map_of kv ''state'' = Some (JStr st)" "st = ''RIDE_PAUSED'' \<or> st = ''RIDE_STOPPED''"
    and "map_of kv ''pauses'' = Some (JList ps)" "ps \<noteq> []"
  shows "coordinate sf k (JDict kv)
         = coordinate sf k (JDict [(''state'', JStr st), (''pauses'', JList [last ps])])"
proof -
  have "kv \<noteq> []" using assms(1) by auto
  then show ?thesis using assms
    by (auto simp add: coordinate_def coord_body_def)
qed

text \<open>
  C2, as the code has it. While the ride is active and \<^verbatim>\<open>currentLocation\<close> is an object,
  each coordinate is read on its own from it, whatever the other coordinate is. A latitude
  that is present and truthy is returned as \<^verbatim>\<open>float\<close> converts it: a float as it is, an
  int of magnitude at most \<open>2 ^ 53\<close> as the float of the same value, any other value as
  the float \<^verbatim>\<open>float\<close> gives; when \<^verbatim>\<open>float\<close> raises \<^verbatim>\<open>TypeError\<close> or \<^verbatim>\<open>ValueError\<close> on
  it, \<^verbatim>\<open>latitude\<close> returns \<^verbatim>\<open>None\<close>. The same holds of the longitude. A coordinate that
  is absent or falsy (\<^verbatim>\<open>0\<close> included) is not returned, and when \<^verbatim>\<open>currentLocation\<close> is
  absent or falsy neither is.
\<close>

theorem active_coordinates_independent:
  assumes "map_of kv ''state'' = Some (JStr ''RIDE_ACTIVE'')"
  shows
    "(map_of kv ''currentLocation'' = Some (JDict loc) \<and> map_of loc ''latitude'' = Some (JFloat f)
        \<and> f \<noteq> Fin 0 \<longrightarrow> latitude sf (JDict kv) = Inr (Some f))
     \<and> (map_of kv ''currentLocation'' = Some (JDict loc) \<and> map_of loc ''longitude'' = Some (JFloat g)
        \<and> g \<noteq> Fin 0 \<longrightarrow> longitude sf (JDict kv) = Inr (Some g))
     \<and> (map_of kv ''currentLocation'' = Some (JDict loc) \<and> map_of loc ''latitude'' = Some (JInt m)
        \<and> m \<noteq> 0 \<and> \<bar>m\<bar> \<le> 2 ^ 53 \<longrightarrow> latitude sf (JDict kv) = Inr (Some (Fin (of_int m))))
     \<and> (map_of kv ''currentLocation'' = Some (JDict loc) \<and> map_of loc ''longitude'' = Some (JInt n)
        \<and> n \<noteq> 0 \<and> \<bar>n\<bar> \<le> 2 ^ 53 \<longrightarrow> longitude sf (JDict kv) = Inr (Some (Fin (of_int n))))
     \<and> (map_of kv ''currentLocation'' = Some (JDict loc) \<and> absent_or_falsy (map_of loc ''latitude'')
        \<longrightarrow> latitude sf (JDict kv) = Inr None)
     \<and> (map_of kv ''currentLocation'' = Some (JDict loc) \<and> absent_or_falsy (map_of loc ''longitude'')
        \<longrightarrow> longitude sf (JDict kv) = Inr None)
     \<and> (absent_or_falsy (map_of kv ''currentLocation'')
        \<longrightarrow> latitude sf (JDict kv) = Inr None \<and> longitude sf (JDict kv) = Inr None)
     \<and> (map_of kv ''currentLocation'' = Some (JDict loc) \<and> map_of loc ''latitude'' = Some v
        \<and> truthy v \<and> py_float sf v = Inr x \<longrightarrow> latitude sf (JDict kv) = Inr (Some x))
     \<and> (map_of kv ''currentLocation'' = Some (JDict loc) \<and> map_of loc ''longitude'' = Some w
        \<and> truthy w \<and> py_float sf w = Inr y \<longrightarrow> longitude sf (JDict kv) = Inr (Some y))
     \<and> (map_of kv ''currentLocation'' = Some (JDict loc) \<and> map_of loc ''latitude'' = Some v
        \<and> truthy v \<and> (py_float sf v = Inl TypeError \<or> py_float sf v = Inl ValueError)
        \<longrightarrow> latitude sf (JDict kv) = Inr None)
     \<and> (map_of kv ''currentLocation'' = Some (JDict loc) \<and> map_of loc ''longitude'' = Some w
        \<and> truthy w \<and> (py_float sf w = Inl TypeError \<or> py_float sf w = Inl ValueError)
        \<longrightarrow> longitude sf (JDict kv) = Inr None)"
proof -
  have c: "coordinate sf k (JDict kv) = Inr (Some z)"
    if "map_of kv ''currentLocation'' = Some (JDict loc)" "map_of loc k = Some u" "truthy u"
      "py_float sf u = Inr z"
    for k u z
    using that by (intro coordinate_active [OF assms]) (simp add: coord_of_converted)
  have r: "coordinate sf k (JDict kv) = Inr None"
    if h: "map_of kv ''currentLocation'' = Some (JDict loc)" "map_of loc k = Some u" "truthy u"
      "py_float sf u = Inl TypeError \<or> py_float sf u = Inl ValueError"
    for k u
  proof -
    obtain e where e: "py_float sf u = Inl e" "tracker_caught e"
      using h(4) by (auto simp add: tracker_caught_def)
    have "coord_of sf k (JDict loc) = Inl e" using h(2,3) e(1) by (rule coord_of_rejected)
    then show ?thesis
      using h(1) e(2) by (intro coordinate_active_caught [OF assms, where e = e]) simp_all
  qed
  have f: "coordinate sf k (JDict kv) = Inr (Some x)"
    if "map_of kv ''currentLocation'' = Some (JDict loc)" "map_of loc k = Some (JFloat x)" "x \<noteq> Fin 0"
    for k x
    using that by (intro coordinate_active [OF assms]) (simp add: coord_of_float)
  have i: "coordinate sf k (JDict kv) = Inr (Some (Fin (of_int j)))"
    if "map_of kv ''currentLocation'' = Some (JDict loc)" "map_of loc k = Some (JInt j)" "j \<noteq> 0"
      "\<bar>j\<bar> \<le> 2 ^ 53"
    for k j
    using that by (intro coordinate_active [OF assms]) (simp add: coord_of_int)
  have a: "coordinate sf k (JDict kv) = Inr None"
    if "map_of kv ''currentLocation'' = Some (JDict loc)" "absent_or_falsy (map_of loc k)"
    for k
    using that by (intro coordinate_active [OF assms]) (simp add: coord_of_absent)
  have n: "coordinate sf k (JDict kv) = Inr None"
    if "absent_or_falsy (map_of kv ''currentLocation'')"
    for k
    using that
    by (intro coordinate_active [OF assms])
      (auto simp add: coord_of_falsy absent_or_falsy_def split: option.splits)
  show ?thesis
    unfolding latitude_def longitude_def
    by (intro conjI impI) (use f i a n c r in \<open>blast+\<close>)
qed

text \<open>With both coordinates, floats or ints, the pair is reported; a latitude of \<^verbatim>\<open>0\<close> and
  a longitude that is absent are not, and without \<^verbatim>\<open>currentLocation\<close> neither is. The
  coordinates \<^verbatim>\<open>true\<close> are returned as \<^verbatim>\<open>1.0\<close>; a list and a string that is no number
  give \<^verbatim>\<open>None\<close>.\<close>

theorem active_coordinates_independent_witness:
  "latitude no_parse (JDict [(''state'', JStr ''RIDE_ACTIVE''),
      (''currentLocation'', JDict [(''latitude'', JFloat (Fin (385 / 8))),
        (''longitude'', JFloat (Fin (9 / 4)))])])
     = Inr (Some (Fin (385 / 8)))
   \<and> longitude no_parse (JDict [(''state'', JStr ''RIDE_ACTIVE''),
      (''currentLocation'', JDict [(''latitude'', JFloat (Fin (385 / 8))),
        (''longitude'', JFloat (Fin (9 / 4)))])])
     = Inr (Some (Fin (9 / 4)))
   \<and> latitude no_parse (JDict [(''state'', JStr ''RIDE_ACTIVE''),
      (''currentLocation'', JDict [(''latitude'', JInt 48), (''longitude'', JInt 2)])])
     = Inr (Some (Fin 48))
   \<and> longitude no_parse (JDict [(''state'', JStr ''RIDE_ACTIVE''),
      (''currentLocation'', JDict [(''latitude'', JInt 48), (''longitude'', JInt 2)])])
     = Inr (Some (Fin 2))
   \<and> latitude no_parse (JDict [(''state'', JStr ''RIDE_ACTIVE''),
      (''currentLocation'', JDict [(''latitude'', JInt 0)])])
     = Inr None
   \<and> longitude no_parse (JDict [(''state'', JStr ''RIDE_ACTIVE''),
      (''currentLocation'', JDict [(''latitude'', JInt 0)])])
     = Inr None
   \<and> latitude no_parse (JDict [(''state'', JStr ''RIDE_ACTIVE'')]) = Inr None
   \<and> longitude no_parse (JDict [(''state'', JStr ''RIDE_ACTIVE'')]) = Inr None
   \<and> latitude no_parse (JDict [(''state'', JStr ''RIDE_ACTIVE''),
      (''currentLocation'', JDict [(''latitude'', JBool True), (''longitude'', JBool True)])])
     = Inr (Some (Fin 1))
   \<and> longitude no_parse (JDict [(''state'', JStr ''RIDE_ACTIVE''),
      (''currentLocation'', JDict [(''latitude'', JBool True), (''longitude'', JBool True)])])
     = Inr (Some (Fin 1))
   \<and> latitude no_parse (JDict [(''state'', JStr ''RIDE_ACTIVE''),
      (''currentLocation'', JDict [(''latitude'', JList [JInt 1]), (''longitude'', JStr ''abc'')])])
     = Inr None
   \<and> longitude no_parse (JDict [(''state'', JStr ''RIDE_ACTIVE''),
      (''currentLocation'', JDict [(''latitude'', JList [JInt 1]), (''longitude'', JStr ''abc'')])])
     = Inr None"
proof -
  let ?le = "[(''latitude'', JBool True), (''longitude'', JBool True)]"
  let ?ke = "[(''state'', JStr ''RIDE_ACTIVE''), (''currentLocation'', JDict ?le)]"
  let ?lg = "[(''latitude'', JList [JInt 1]), (''longitude'', JStr ''abc'')]"
  let ?kg = "[(''state'', JStr ''RIDE_ACTIVE''), (''currentLocation'', JDict ?lg)]"
  have se: "map_of ?ke ''state'' = Some (JStr ''RIDE_ACTIVE'')" by simp
  have sg: "map_of ?kg ''state'' = Some (JStr ''RIDE_ACTIVE'')" by simp
  note te = active_coordinates_independent [OF se, where loc = ?le and v = "JBool True"
      and x = "Fin 1" and w = "JBool True" and y = "Fin 1" and sf = no_parse]
  note tg = active_coordinates_independent [OF sg, where loc = ?lg and v = "JList [JInt 1]"
      and w = "JStr ''abc''" and sf = no_parse]
  have 9: "latitude no_parse (JDict ?ke) = Inr (Some (Fin 1))" using te by simp
  have 10: "longitude no_parse (JDict ?ke) = Inr (Some (Fin 1))" using te by simp
  have 11: "latitude no_parse (JDict ?kg) = Inr None" using tg by simp
  have 12: "longitude no_parse (JDict ?kg) = Inr None" using tg by (simp add: no_parse_def)
  let ?la = "[(''latitude'', JFloat (Fin (385 / 8))), (''longitude'', JFloat (Fin (9 / 4)))]"
  let ?ka = "[(''state'', JStr ''RIDE_ACTIVE''), (''currentLocation'', JDict ?la)]"
  let ?lb = "[(''latitude'', JInt 48), (''longitude'', JInt 2)]"
  let ?kb = "[(''state'', JStr ''RIDE_ACTIVE''), (''currentLocation'', JDict ?lb)]"
  let ?lc = "[(''latitude'', JInt 0)]"
  let ?kc = "[(''state'', JStr ''RIDE_ACTIVE''), (''currentLocation'', JDict ?lc)]"
  let ?kd = "[(''state'', JStr ''RIDE_ACTIVE'')]"
  have sa: "map_of ?ka ''state'' = Some (JStr ''RIDE_ACTIVE'')" by simp
  have sb: "map_of ?kb ''state'' = Some (JStr ''RIDE_ACTIVE'')" by simp
  have sc: "map_of ?kc ''state'' = Some (JStr ''RIDE_ACTIVE'')" by simp
  have sd: "map_of ?kd ''state'' = Some (JStr ''RIDE_ACTIVE'')" by simp
  note ta = active_coordinates_independent [OF sa, where loc = ?la and f = "Fin (385 / 8)"
      and g = "Fin (9 / 4)" and sf = no_parse]
  note tb = active_coordinates_independent [OF sb, where loc = ?lb and m = 48 and n = 2
      and sf = no_parse]
  note tc = active_coordinates_independent [OF sc, where loc = ?lc and sf = no_parse]
  note td = active_coordinates_independent [OF sd, where sf = no_parse]
  have 1: "latitude no_parse (JDict ?ka) = Inr (Some (Fin (385 / 8)))" using ta by simp
  have 2: "longitude no_parse (JDict ?ka) = Inr (Some (Fin (9 / 4)))" using ta by simp
  have 3: "latitude no_parse (JDict ?kb) = Inr (Some (Fin 48))" using tb by simp
  have 4: "longitude no_parse (JDict ?kb) = Inr (Some (Fin 2))" using tb by simp
  have 5: "latitude no_parse (JDict ?kc) = Inr None" using tc by (simp add: absent_or_falsy_def)
  have 6: "longitude no_parse (JDict ?kc) = Inr None" using tc by (simp add: absent_or_falsy_def)
  have 7: "latitude no_parse (JDict ?kd) = Inr None" using td by (simp add: absent_or_falsy_def)
  have 8: "longitude no_parse (JDict ?kd) = Inr None" using td by (simp add: absent_or_falsy_def)
  show ?thesis using 1 2 3 4 5 6 7 8 9 10 11 12 by simp
qed

text \<open>
  With a latitude and no longitude the claim of C2 wants neither coordinate returned; the
  latitude is returned all the same.
\<close>

theorem active_latitude_without_longitude:
  "latitude no_parse (JDict [(''state'', JStr ''RIDE_ACTIVE''),
      (''currentLocation'', JDict [(''latitude'', JFloat (Fin (97 / 2)))])])
     = Inr (Some (Fin (97 / 2)))
   \<and> longitude no_parse (JDict [(''state'', JStr ''RIDE_ACTIVE''),
      (''currentLocation'', JDict [(''latitude'', JFloat (Fin (97 / 2)))])])
     = Inr None"
  by (simp add: latitude_def longitude_def coordinate_def coord_body_def coord_of_def)

text \<open>
  C3, as the code has it. While the ride is paused or stopped and \<^verbatim>\<open>pauses\<close> is a non-empty
  list, both coordinates depend on the last element only (the snapshot can be cut down to its
  state and that element). When that element is an object whose \<^verbatim>\<open>lastLocation\<close> is an
  object, each coordinate is read on its own from it: one that is present and truthy is
  returned as \<^verbatim>\<open>float\<close> converts it (a float as it is, an int of magnitude at most
  \<open>2 ^ 53\<close> as the float of the same value), and \<^verbatim>\<open>None\<close> is returned when \<^verbatim>\<open>float\<close>
  raises \<^verbatim>\<open>TypeError\<close> or \<^verbatim>\<open>ValueError\<close> on it; one that is absent or falsy is not
  returned. When the \<^verbatim>\<open>lastLocation\<close> of that element is absent or falsy, neither
  coordinate is returned.
\<close>

theorem paused_coordinates_from_last_pause:
  assumes "map_of kv ''state'' = Some (JStr st)" "st = ''RIDE_PAUSED'' \<or> st = ''RIDE_STOPPED''"
    and "map_of kv ''pauses'' = Some (JList ps)" "ps \<noteq> []"
  shows
    "latitude sf (JDict kv) = latitude sf (JDict [(''state'', JStr st), (''pauses'', JList [last ps])])
     \<and> longitude sf (JDict kv) = longitude sf (JDict [(''state'', JStr st), (''pauses'', JList [last ps])])
     \<and> (last ps = JDict p \<and> map_of p ''lastLocation'' = Some (JDict loc)
        \<and> map_of loc ''latitude'' = Some (JFloat f) \<and> f \<noteq> Fin 0
        \<longrightarrow> latitude sf (JDict kv) = Inr (Some f))
     \<and> (last ps = JDict p \<and> map_of p ''lastLocation'' = Some (JDict loc)
        \<and> map_of loc ''longitude'' = Some (JFloat g) \<and> g \<noteq> Fin 0
        \<longrightarrow> longitude sf (JDict kv) = Inr (Some g))
     \<and> (last ps = JDict p \<and> map_of p ''lastLocation'' = Some (JDict loc)
        \<and> map_of loc ''latitude'' = Some (JInt m) \<and> m \<noteq> 0 \<and> \<bar>m\<bar> \<le> 2 ^ 53
        \<longrightarrow> latitude sf (JDict kv) = Inr (Some (Fin (of_int m))))
     \<and> (last ps = JDict p \<and> map_of p ''lastLocation'' = Some (JDict loc)
        \<and> map_of loc ''longitude'' = Some (JInt n) \<and> n \<noteq> 0 \<and> \<bar>n\<bar> \<le> 2 ^ 53
        \<longrightarrow> longitude sf (JDict kv) = Inr (Some (Fin (of_int n))))
     \<and> (last ps = JDict p \<and> map_of p ''lastLocation'' = Some (JDict loc)
        \<and> absent_or_falsy (map_of loc ''latitude'')
        \<longrightarrow> latitude sf (JDict kv) = Inr None)
     \<and> (last ps = JDict p \<and> map_of p ''lastLocation'' = Some (JDict loc)
        \<and> absent_or_falsy (map_of loc ''longitude'')
        \<longrightarrow> longitude sf (JDict kv) = Inr None)
     \<and> (last ps = JDict p \<and> absent_or_falsy (map_of p ''lastLocation'')
        \<longrightarrow> latitude sf (JDict kv) = Inr None \<and> longitude sf (JDict kv) = Inr None)
     \<and> (last ps = JDict p \<and> map_of p ''lastLocation'' = Some (JDict loc)
        \<and> map_of loc ''latitude'' = Some v \<and> truthy v \<and> py_float sf v = Inr x
        \<longrightarrow> latitude sf (JDict kv) = Inr (Some x))
     \<and> (last ps = JDict p \<and> map_of p ''lastLocation'' = Some (JDict loc)
        \<and> map_of loc ''longitude'' = Some w \<and> truthy w \<and> py_float sf w = Inr y
        \<longrightarrow> longitude sf (JDict kv) = Inr (Some y))
     \<and> (last ps = JDict p \<and> map_of p ''lastLocation'' = Some (JDict loc)
        \<and> map_of loc ''latitude'' = Some v \<and> truthy v
        \<and> (py_float sf v = Inl TypeError \<or> py_float sf v = Inl ValueError)
        \<longrightarrow> latitude sf (JDict kv) = Inr None)
     \<and> (last ps = JDict p \<and> map_of p ''lastLocation'' = Some (JDict loc)
        \<and> map_of loc ''longitude'' = Some w \<and> truthy w
        \<and> (py_float sf w = Inl TypeError \<or> py_float sf w = Inl ValueError)
        \<longrightarrow> longitude sf (JDict kv) = Inr None)"
proof -
  note cp = coordinate_paused [OF assms]
  have c: "coordinate sf k (JDict kv) = Inr (Some z)"
    if "last ps = JDict p" "map_of p ''lastLocation'' = Some (JDict loc)"
      "map_of loc k = Some u" "truthy u" "py_float sf u = Inr z"
    for k u z
    using that cp [where p = p and sf = sf and k = k and r = "Some z"]
    by (simp add: coord_of_converted)
  have r: "coordinate sf k (JDict kv) = Inr None"
    if h: "last ps = JDict p" "map_of p ''lastLocation'' = Some (JDict loc)"
      "map_of loc k = Some u" "truthy u"
      "py_float sf u = Inl TypeError \<or> py_float sf u = Inl ValueError"
    for k u
  proof -
    obtain e where e: "py_float sf u = Inl e" "tracker_caught e"
      using h(5) by (auto simp add: tracker_caught_def)
    have "coord_of sf k (JDict loc) = Inl e" using h(3,4) e(1) by (rule coord_of_rejected)
    then show ?thesis
      using h(1,2) e(2)
      by (intro coordinate_paused_caught [OF assms, where e = e and p = p]) simp_all
  qed
  have l: "coordinate sf k (JDict kv)
      = coordinate sf k (JDict [(''state'', JStr st), (''pauses'', JList [last ps])])" for k
    by (rule coordinate_last_only [OF assms])
  have f: "coordinate sf k (JDict kv) = Inr (Some x)"
    if "last ps = JDict p" "map_of p ''lastLocation'' = Some (JDict loc)"
      "map_of loc k = Some (JFloat x)" "x \<noteq> Fin 0"
    for k x
    using that cp [where p = p and sf = sf and k = k and r = "Some x"] by (simp add: coord_of_float)
  have i: "coordinate sf k (JDict kv) = Inr (Some (Fin (of_int j)))"
    if "last ps = JDict p" "map_of p ''lastLocation'' = Some (JDict loc)"
      "map_of loc k = Some (JInt j)" "j \<noteq> 0" "\<bar>j\<bar> \<le> 2 ^ 53"
    for k j
    using that cp [where p = p and sf = sf and k = k and r = "Some (Fin (of_int j))"]
    by (simp add: coord_of_int)
  have a: "coordinate sf k (JDict kv) = Inr None"
    if "last ps = JDict p" "map_of p ''lastLocation'' = Some (JDict loc)"
      "absent_or_falsy (map_of loc k)"
    for k
    using that cp [where p = p and sf = sf and k = k and r = None] by (simp add: coord_of_absent)
  have n: "coordinate sf k (JDict kv) = Inr None"
    if "last ps = JDict p" "absent_or_falsy (map_of p ''lastLocation'')"
    for k
    using that cp [where p = p and sf = sf and k = k and r = None]
    by (auto simp add: coord_of_falsy absent_or_falsy_def split: option.splits)
  show ?thesis
    unfolding latitude_def longitude_def
    by (intro conjI impI) (use l f i a n c r in \<open>blast+\<close>)
qed

text \<open>The example of the spec: two pauses at \<open>(1, 1)\<close> and \<open>(2, 2)\<close>, ride stopped, give
  \<open>(2, 2)\<close>. Then a last pause with floats, one with a latitude of \<^verbatim>\<open>0\<close> and no longitude,
  one without \<^verbatim>\<open>lastLocation\<close>, one with the coordinates \<^verbatim>\<open>true\<close>, and one with a list and
  a string that is no number.\<close>

theorem paused_coordinates_from_last_pause_witness:
  "latitude no_parse (JDict [(''state'', JStr ''RIDE_STOPPED''), (''pauses'', JList
      [JDict [(''lastLocation'', JDict [(''latitude'', JInt 1), (''longitude'', JInt 1)])],
       JDict [(''lastLocation'', JDict [(''latitude'', JInt 2), (''longitude'', JInt 2)])]])])
     = Inr (Some (Fin 2))
   \<and> longitude no_parse (JDict [(''state'', JStr ''RIDE_STOPPED''), (''pauses'', JList
      [JDict [(''lastLocation'', JDict [(''latitude'', JInt 1), (''longitude'', JInt 1)])],
       JDict [(''lastLocation'', JDict [(''latitude'', JInt 2), (''longitude'', JInt 2)])]])])
     = Inr (Some (Fin 2))
   \<and> latitude no_parse (JDict [(''state'', JStr ''RIDE_PAUSED''), (''pauses'', JList
      [JDict [(''lastLocation'', JDict [(''latitude'', JFloat (Fin (3 / 2))),
        (''longitude'', JFloat (Fin (5 / 2)))])]])])
     = Inr (Some (Fin (3 / 2)))
   \<and> longitude no_parse (JDict [(''state'', JStr ''RIDE_PAUSED''), (''pauses'', JList
      [JDict [(''lastLocation'', JDict [(''latitude'', JFloat (Fin (3 / 2))),
        (''longitude'', JFloat (Fin (5 / 2)))])]])])
     = Inr (Some (Fin (5 / 2)))
   \<and> latitude no_parse (JDict [(''state'', JStr ''RIDE_PAUSED''), (''pauses'', JList
      [JDict [(''lastLocation'', JDict [(''latitude'', JInt 0)])]])])
     = Inr None
   \<and> longitude no_parse (JDict [(''state'', JStr ''RIDE_PAUSED''), (''pauses'', JList
      [JDict [(''lastLocation'', JDict [(''latitude'', JInt 0)])]])])
     = Inr None
   \<and> latitude no_parse (JDict [(''state'', JStr ''RIDE_PAUSED''), (''pauses'', JList
      [JDict [(''startTime'', JInt 7)]])])
     = Inr None
   \<and> longitude no_parse (JDict [(''state'', JStr ''RIDE_PAUSED''), (''pauses'', JList
      [JDict [(''startTime'', JInt 7)]])])
     = Inr None
   \<and> latitude no_parse (JDict [(''state'', JStr ''RIDE_PAUSED''), (''pauses'', JList
      [JDict [(''lastLocation'', JDict [(''latitude'', JBool True), (''longitude'', JBool True)])]])])
     = Inr (Some (Fin 1))
   \<and> longitude no_parse (JDict [(''state'', JStr ''RIDE_PAUSED''), (''pauses'', JList
      [JDict [(''lastLocation'', JDict [(''latitude'', JBool True), (''longitude'', JBool True)])]])])
     = Inr (Some (Fin 1))
   \<and> latitude no_parse (JDict [(''state'', JStr ''RIDE_PAUSED''), (''pauses'', JList
      [JDict [(''lastLocation'', JDict [(''latitude'', JList [JInt 1]),
        (''longitude'', JStr ''abc'')])]])])
     = Inr None
   \<and> longitude no_parse (JDict [(''state'', JStr ''RIDE_PAUSED''), (''pauses'', JList
      [JDict [(''lastLocation'', JDict [(''latitude'', JList [JInt 1]),
        (''longitude'', JStr ''abc'')])]])])
     = Inr None"
proof -
  let ?le = "[(''latitude'', JBool True), (''longitude'', JBool True)]"
  let ?pe = "[JDict [(''lastLocation'', JDict ?le)]]"
  let ?ke = "[(''state'', JStr ''RIDE_PAUSED''), (''pauses'', JList ?pe)]"
  let ?lg = "[(''latitude'', JList [JInt 1]), (''longitude'', JStr ''abc'')]"
  let ?pg = "[JDict [(''lastLocation'', JDict ?lg)]]"
  let ?kg = "[(''state'', JStr ''RIDE_PAUSED''), (''pauses'', JList ?pg)]"
  let ?la = "[(''latitude'', JInt 1), (''longitude'', JInt 1)]"
  let ?lb = "[(''latitude'', JInt 2), (''longitude'', JInt 2)]"
  let ?ps = "[JDict [(''lastLocation'', JDict ?la)], JDict [(''lastLocation'', JDict ?lb)]]"
  let ?kv = "[(''state'', JStr ''RIDE_STOPPED''), (''pauses'', JList ?ps)]"
  let ?lf = "[(''latitude'', JFloat (Fin (3 / 2))), (''longitude'', JFloat (Fin (5 / 2)))]"
  let ?pf = "[JDict [(''lastLocation'', JDict ?lf)]]"
  let ?kf = "[(''state'', JStr ''RIDE_PAUSED''), (''pauses'', JList ?pf)]"
  let ?lz = "[(''latitude'', JInt 0)]"
  let ?pz = "[JDict [(''lastLocation'', JDict ?lz)]]"
  let ?kz = "[(''state'', JStr ''RIDE_PAUSED''), (''pauses'', JList ?pz)]"
  let ?pn = "[JDict [(''startTime'', JInt 7)]]"
  let ?kn = "[(''state'', JStr ''RIDE_PAUSED''), (''pauses'', JList ?pn)]"
  have s: "map_of ?kv ''state'' = Some (JStr ''RIDE_STOPPED'')" by simp
  have o: "''RIDE_STOPPED'' = ''RIDE_PAUSED'' \<or> ''RIDE_STOPPED'' = ''RIDE_STOPPED''" by simp
  have p: "map_of ?kv ''pauses'' = Some (JList ?ps)" by simp
  have ne: "?ps \<noteq> []" by simp
  have sf: "map_of ?kf ''state'' = Some (JStr ''RIDE_PAUSED'')" by simp
  have sz: "map_of ?kz ''state'' = Some (JStr ''RIDE_PAUSED'')" by simp
  have sn: "map_of ?kn ''state'' = Some (JStr ''RIDE_PAUSED'')" by simp
  have op: "''RIDE_PAUSED'' = ''RIDE_PAUSED'' \<or> ''RIDE_PAUSED'' = ''RIDE_STOPPED''" by simp
  have pf: "map_of ?kf ''pauses'' = Some (JList ?pf)" by simp
  have pz: "map_of ?kz ''pauses'' = Some (JList ?pz)" by simp
  have pn: "map_of ?kn ''pauses'' = Some (JList ?pn)" by simp
  have nf: "?pf \<noteq> []" by simp
  have nz: "?pz \<noteq> []" by simp
  have nn: "?pn \<noteq> []" by simp
  note t = paused_coordinates_from_last_pause [OF s o p ne,
      where p = "[(''lastLocation'', JDict ?lb)]" and loc = ?lb and m = 2 and n = 2 and sf = no_parse]
  note u = t [THEN conjunct2, THEN conjunct2]
  note tf = paused_coordinates_from_last_pause [OF sf op pf nf,
      where p = "[(''lastLocation'', JDict ?lf)]" and loc = ?lf and f = "Fin (3 / 2)"
      and g = "Fin (5 / 2)" and sf = no_parse]
  note uf = tf [THEN conjunct2, THEN conjunct2]
  note tz = paused_coordinates_from_last_pause [OF sz op pz nz,
      where p = "[(''lastLocation'', JDict ?lz)]" and loc = ?lz and sf = no_parse]
  note uz = tz [THEN conjunct2, THEN conjunct2]
  note tn = paused_coordinates_from_last_pause [OF sn op pn nn,
      where p = "[(''startTime'', JInt 7)]" and sf = no_parse]
  note un = tn [THEN conjunct2, THEN conjunct2]
  have 1: "latitude no_parse (JDict ?kv) = Inr (Some (Fin 2))" using u by simp
  have 2: "longitude no_parse (JDict ?kv) = Inr (Some (Fin 2))" using u by simp
  have 3: "latitude no_parse (JDict ?kf) = Inr (Some (Fin (3 / 2)))" using uf by simp
  have 4: "longitude no_parse (JDict ?kf) = Inr (Some (Fin (5 / 2)))" using uf by simp
  have 5: "latitude no_parse (JDict ?kz) = Inr None" using uz by (simp add: absent_or_falsy_def)
  have 6: "longitude no_parse (JDict ?kz) = Inr None" using uz by (simp add: absent_or_falsy_def)
  have 7: "latitude no_parse (JDict ?kn) = Inr None" using un by (simp add: absent_or_falsy_def)
  have 8: "longitude no_parse (JDict ?kn) = Inr None" using un by (simp add: absent_or_falsy_def)
  have se: "map_of ?ke ''state'' = Some (JStr ''RIDE_PAUSED'')" by simp
  have sg: "map_of ?kg ''state'' = Some (JStr ''RIDE_PAUSED'')" by simp
  have pe: "map_of ?ke ''pauses'' = Some (JList ?pe)" by simp
  have pg: "map_of ?kg ''pauses'' = Some (JList ?pg)" by simp
  have nee: "?pe \<noteq> []" by simp
  have neg: "?pg \<noteq> []" by simp
  note te = paused_coordinates_from_last_pause [OF se op pe nee,
      where p = "[(''lastLocation'', JDict ?le)]" and loc = ?le and v = "JBool True"
      and x = "Fin 1" and w = "JBool True" and y = "Fin 1" and sf = no_parse]
  note ue = te [THEN conjunct2, THEN conjunct2]
  note tg = paused_coordinates_from_last_pause [OF sg op pg neg,
      where p = "[(''lastLocation'', JDict ?lg)]" and loc = ?lg and v = "JList [JInt 1]"
      and w = "JStr ''abc''" and sf = no_parse]
  note ug = tg [THEN conjunct2, THEN conjunct2]
  have 9: "latitude no_parse (JDict ?ke) = Inr (Some (Fin 1))" using ue by simp
  have 10: "longitude no_parse (JDict ?ke) = Inr (Some (Fin 1))" using ue by simp
  have 11: "latitude no_parse (JDict ?kg) = Inr None" using ug by simp
  have 12: "longitude no_parse (JDict ?kg) = Inr None" using ug by (simp add: no_parse_def)
  show ?thesis using 1 2 3 4 5 6 7 8 9 10 11 12 by simp
qed

text \<open>
  When the last pause has a latitude and no longitude, the claim of C3 wants no location; the
  latitude is returned all the same.
\<close>

theorem paused_latitude_without_longitude:
  "latitude no_parse (JDict [(''state'', JStr ''RIDE_PAUSED''), (''pauses'', JList
      [JDict [(''lastLocation'', JDict [(''latitude'', JFloat (Fin 2))])]])])
     = Inr (Some (Fin 2))
   \<and> longitude no_parse (JDict [(''state'', JStr ''RIDE_PAUSED''), (''pauses'', JList
      [JDict [(''lastLocation'', JDict [(''latitude'', JFloat (Fin 2))])]])])
     = Inr None"
  by (simp add: latitude_def longitude_def coordinate_def coord_body_def coord_of_def)

section \<open>Exceptions that leave the readers\<close>

lemma state_never_raises: "\<exists>v. state sf dt key d = Inr v"
  by (simp add: state_def split: sum.splits)

lemma extra_state_attributes_never_raises: "\<exists>a. extra_state_attributes d = Inr a"
  by (simp add: extra_state_attributes_def split: sum.splits)

lemma py_float_errors:
  "py_float sf v = Inl e \<Longrightarrow> e = TypeError \<or> e = ValueError \<or> e = OverflowError"
  by (cases v) (auto simp add: int_to_float_def split: if_splits option.splits)

lemma dict_get_errors: "dict_get v k dflt = Inl e \<Longrightarrow> e = AttributeError"
  by (cases v) auto

lemma getitem_errors: "getitem v k = Inl e \<Longrightarrow> e = KeyError \<or> e = TypeError"
  by (cases v) (auto split: option.splits)

lemma getitem_last_errors: "truthy v \<Longrightarrow> getitem_last v = Inl e \<Longrightarrow> e = KeyError \<or> e = TypeError"
  by (cases v) (auto split: if_splits)

lemma ebind_Inl: "ebind m f = Inl e \<Longrightarrow> m = Inl e \<or> (\<exists>x. m = Inr x \<and> f x = Inl e)"
  by (cases m) auto

lemma coord_of_errors:
  assumes "coord_of sf k loc = Inl e"
  shows "tracker_caught e \<or> e = OverflowError"
proof -
  from assms have t: "truthy loc" by (auto simp add: coord_of_def split: if_splits)
  from assms t have "dict_get loc k JNull = Inl e \<or> (\<exists>v. dict_get loc k JNull = Inr v \<and> truthy v \<and>
      ebind (getitem loc k) (\<lambda>w. ebind (py_float sf w) (\<lambda>f. Inr (Some f))) = Inl e)"
    by (auto simp add: coord_of_def dest!: ebind_Inl split: if_splits)
  then show ?thesis
    by (auto simp add: tracker_caught_def
        dest!: ebind_Inl dict_get_errors getitem_errors py_float_errors)
qed

lemma coord_body_errors:
  assumes "coord_body sf k d = Inl e"
  shows "tracker_caught e \<or> e = OverflowError"
proof -
  have dg: "tracker_caught e'" if "dict_get v k' dflt = Inl e'" for v k' dflt e'
    using dict_get_errors [OF that] by (simp add: tracker_caught_def)
  have A: "tracker_caught e' \<or> e' = OverflowError"
    if "ebind (dict_get v k' dflt) (coord_of sf k) = Inl e'" for v k' dflt e'
  proof (cases "dict_get v k' dflt")
    case (Inl x)
    then show ?thesis using that dg [of v k' dflt x] by simp
  next
    case (Inr w)
    then show ?thesis using that coord_of_errors [of sf k w e'] by simp
  qed
  have B: "tracker_caught e' \<or> e' = OverflowError"
    if "ebind (dict_get d ''pauses'' (JList [])) (\<lambda>pauses.
          if truthy pauses then
            ebind (getitem_last pauses) (\<lambda>last_pause.
              ebind (dict_get last_pause ''lastLocation'' (JDict [])) (coord_of sf k))
          else Inr None) = Inl e'" for e'
  proof (cases "dict_get d ''pauses'' (JList [])")
    case (Inl x)
    then show ?thesis using that dg [of d "''pauses''" "JList []" x] by simp
  next
    case (Inr ps)
    show ?thesis
    proof (cases "truthy ps")
      case False
      then show ?thesis using that Inr by simp
    next
      case True
      show ?thesis
      proof (cases "getitem_last ps")
        case (Inl x)
        then have "e' = x" using that Inr True by simp
        then show ?thesis
          using getitem_last_errors [OF True Inl] by (auto simp add: tracker_caught_def)
      next
        case lp: (Inr w)
        then show ?thesis using that Inr True A [of w "''lastLocation''" "JDict []" e'] by simp
      qed
    qed
  qed
  show ?thesis
  proof (cases "dict_get d ''state'' JNull")
    case (Inl x)
    then show ?thesis using assms dg [of d "''state''" JNull x] by (simp add: coord_body_def)
  next
    case (Inr st)
    show ?thesis
    proof (cases "st = JStr ''RIDE_ACTIVE''")
      case True
      show ?thesis
      proof (cases "ebind (dict_get d ''currentLocation'' JNull) (coord_of sf k)")
        case (Inl x)
        then have "e = x" using assms Inr True by (simp add: coord_body_def)
        then show ?thesis using A [OF Inl] by simp
      next
        case r: (Inr y)
        then show ?thesis using assms Inr True
          by (cases y) (simp_all add: coord_body_def)
      qed
    next
      case False
      then show ?thesis using assms Inr B [of e]
        by (auto simp add: coord_body_def split: if_splits)
    qed
  qed
qed

lemma coordinate_raises_only_overflow: "coordinate sf k d = Inl e \<Longrightarrow> e = OverflowError"
  using coord_body_errors [of sf k d]
  by (auto simp add: coordinate_def split: if_splits sum.splits)

text \<open>
  C10 fails on the code. \<^verbatim>\<open>state\<close> and \<^verbatim>\<open>extra_state_attributes\<close> catch every exception
  (the two lemmas above), but \<^verbatim>\<open>latitude\<close> and \<^verbatim>\<open>longitude\<close> catch four kinds only, and
  \<^verbatim>\<open>float\<close> raises \<^verbatim>\<open>OverflowError\<close> on an int that no double can hold: the exception leaves
  the property.
\<close>

theorem latitude_overflow_escapes:
  "latitude sf (JDict [(''state'', JStr ''RIDE_ACTIVE''),
      (''currentLocation'', JDict [(''latitude'', JInt (2 ^ 1024))])])
     = Inl OverflowError"
  by (simp add: latitude_def coordinate_def coord_body_def coord_of_def int_to_float_def
      overflows_def tracker_caught_def)

section \<open>Derived values\<close>

lemma fl_le_pow2:
  assumes "0 < q" "q \<le> 2 ^ n"
  shows "fl q \<le> 2 ^ n"
proof -
  have "q < 2 powi (int n + 1)"
  proof -
    have "(2::rat) ^ n < 2 ^ (n + 1)" by simp
    also have "\<dots> = 2 powi (int n + 1)" by (simp add: power_int_add)
    finally show ?thesis using assms(2) by linarith
  qed
  then have "ulp_exp q \<le> (int n + 1) - 53" using assms(1) by (intro ulp_exp_le) auto
  then have e: "ulp_exp q \<le> int n" by simp
  define j where "j = nat (int n - ulp_exp q)"
  have "(2::rat) powi (int j + ulp_exp q) = 2 powi (int j) * 2 powi (ulp_exp q)"
    by (rule power_int_add) simp
  moreover have "int j + ulp_exp q = int n" using e by (simp add: j_def)
  ultimately have g: "(2::rat) ^ n = of_int (2 ^ j) * 2 powi (ulp_exp q)" by simp
  have q0: "q \<noteq> 0" using assms(1) by simp
  have "q \<le> of_int (2 ^ j) * 2 powi (ulp_exp q)" using assms(2) by (simp only: g)
  then have "fl q \<le> of_int (2 ^ j) * 2 powi (ulp_exp q)" by (rule fl_le_grid [OF q0])
  then show ?thesis by (simp only: g)
qed

lemma int_to_float_consts:
  "int_to_float 60 = Inr (Fin 60)" "int_to_float 100 = Inr (Fin 100)"
  "int_to_float 1000 = Inr (Fin 1000)"
  using int_to_float_small [of 60] int_to_float_small [of 100] int_to_float_small [of 1000]
  by simp_all

lemma py_truediv_float:
  "py_truediv (JFloat f) 60 = Inr (ieee_div f 60)"
  "py_truediv (JFloat f) 1000 = Inr (ieee_div f 1000)"
  by (simp_all add: int_to_float_consts)

lemma state_dict:
  "kv \<noteq> [] \<Longrightarrow> state sf dt key (JDict kv)
     = (case state_body sf dt key (JDict kv) of Inl e \<Rightarrow> Inr None | Inr v \<Rightarrow> Inr v)"
  by (simp add: state_def)

lemma not_overflows_lt: "\<bar>q\<bar> < 2 ^ 1023 \<Longrightarrow> \<not> overflows q"
proof -
  assume "\<bar>q\<bar> < 2 ^ 1023"
  moreover have "(2::rat) ^ 1023 < 2 ^ 1024 - 2 ^ 970" by simp
  ultimately show ?thesis by (simp add: overflows_def)
qed

text \<open>
  C7, as the code has it. The distance sensor returns \<^verbatim>\<open>float(distance) / 1000\<close>: for a float
  distance the IEEE quotient by 1000, which for a finite one is the double nearest to the
  exact quotient; for an int that converts to a float the quotient of that float, which for
  an int of magnitude at most \<open>2 ^ 53\<close> is the double nearest to the exact quotient.
\<close>

theorem distance_state_kilometres:
  assumes "map_of kv ''distance'' = Some d"
  shows
    "(d = JFloat f \<longrightarrow> state sf dt ''distance'' (JDict kv) = Inr (Some (SFloat (ieee_div f 1000))))
     \<and> (d = JFloat (Fin x) \<and> \<bar>x\<bar> < 2 ^ 1024
        \<longrightarrow> state sf dt ''distance'' (JDict kv) = Inr (Some (SFloat (Fin (fl (x / 1000))))))
     \<and> (d = JInt n \<and> \<not> overflows (of_int n)
        \<longrightarrow> state sf dt ''distance'' (JDict kv)
            = Inr (Some (SFloat (ieee_div (Fin (fl (of_int n))) 1000))))
     \<and> (d = JInt n \<and> \<bar>n\<bar> \<le> 2 ^ 53
        \<longrightarrow> state sf dt ''distance'' (JDict kv) = Inr (Some (SFloat (Fin (fl (of_int n / 1000))))))"
proof -
  have ne: "kv \<noteq> []" using assms by auto
  have 1: "state sf dt ''distance'' (JDict kv) = Inr (Some (SFloat (ieee_div f 1000)))"
    if "d = JFloat f" for f
    using that assms ne by (simp add: state_dict state_body_def int_to_float_consts)
  have 2: "state sf dt ''distance'' (JDict kv) = Inr (Some (SFloat (Fin (fl (x / 1000)))))"
    if "d = JFloat (Fin x)" "\<bar>x\<bar> < 2 ^ 1024"
  proof -
    have "\<bar>x / 1000\<bar> < 2 ^ 1023" using that(2) by simp
    then have "\<not> overflows (x / 1000)" by (rule not_overflows_lt)
    then show ?thesis using 1 [OF that(1)] by (simp add: fround_def)
  qed
  have 3: "state sf dt ''distance'' (JDict kv)
      = Inr (Some (SFloat (ieee_div (Fin (fl (of_int n))) 1000)))"
    if "d = JInt n" "\<not> overflows (of_int n)"
  proof -
    have "int_to_float n = Inr (Fin (fl (of_int n)))" using that(2) by (simp add: int_to_float_def)
    then show ?thesis using that(1) assms ne
      by (simp add: state_dict state_body_def int_to_float_consts)
  qed
  have 4: "state sf dt ''distance'' (JDict kv) = Inr (Some (SFloat (Fin (fl (of_int n / 1000)))))"
    if "d = JInt n" "\<bar>n\<bar> \<le> 2 ^ 53"
  proof -
    have no: "\<not> overflows (of_int n)" using that(2) by (rule not_overflows_small)
    have "\<bar>of_int n / 1000 :: rat\<bar> \<le> \<bar>of_int n\<bar>" by simp
    then have "\<not> overflows (of_int n / 1000)" using no by (simp add: overflows_def)
    then show ?thesis using 3 [OF that(1) no] that(2)
      by (simp add: fround_def fl_of_int_small)
  qed
  show ?thesis using 1 2 3 4 by blast
qed

text \<open>A distance of 12345 metres gives the double \<open>12.345\<close>, that is
  \<open>6949617174986097 / 2 ^ 49\<close>; then a float of 12345.5 metres, an infinite distance, and
  an int beyond \<open>2 ^ 53\<close>.\<close>

theorem distance_state_kilometres_witness:
  "state no_parse no_parse ''distance'' (JDict [(''distance'', JInt 12345)])
     = Inr (Some (SFloat (Fin (6949617174986097 / 562949953421312))))
   \<and> state no_parse no_parse ''distance'' (JDict [(''distance'', JFloat (Fin (24691 / 2)))])
     = Inr (Some (SFloat (Fin (6949898649962807 / 562949953421312))))
   \<and> state no_parse no_parse ''distance'' (JDict [(''distance'', JFloat PInf)])
     = Inr (Some (SFloat PInf))
   \<and> state no_parse no_parse ''distance'' (JDict [(''distance'', JInt (2 ^ 60 + 1))])
     = Inr (Some (SFloat (Fin 1152921504606847)))"
proof -
  have m: "map_of [(''distance'', JInt 12345)] ''distance'' = Some (JInt 12345)" by simp
  have b: "\<bar>12345 :: int\<bar> \<le> 2 ^ 53" by simp
  have v: "fl (12345 / 1000) = 6949617174986097 / 562949953421312" by code_simp
  note t = distance_state_kilometres [OF m, where n = 12345 and sf = no_parse and dt = no_parse]
  have 1: "state no_parse no_parse ''distance'' (JDict [(''distance'', JInt 12345)])
      = Inr (Some (SFloat (Fin (6949617174986097 / 562949953421312))))"
    using t b v by simp
  have mf: "map_of [(''distance'', JFloat (Fin (24691 / 2)))] ''distance''
      = Some (JFloat (Fin (24691 / 2)))" by simp
  have bf: "\<bar>24691 / 2 :: rat\<bar> < 2 ^ 1024" by simp
  have vf: "fl (24691 / 2 / 1000) = 6949898649962807 / 562949953421312" by code_simp
  note tf = distance_state_kilometres [OF mf, where x = "24691 / 2" and sf = no_parse
      and dt = no_parse]
  have 2: "state no_parse no_parse ''distance'' (JDict [(''distance'', JFloat (Fin (24691 / 2)))])
      = Inr (Some (SFloat (Fin (6949898649962807 / 562949953421312))))"
    using tf bf vf by simp
  have mi: "map_of [(''distance'', JFloat PInf)] ''distance'' = Some (JFloat PInf)" by simp
  note ti = distance_state_kilometres [OF mi, where f = PInf and sf = no_parse and dt = no_parse]
  have 3: "state no_parse no_parse ''distance'' (JDict [(''distance'', JFloat PInf)])
      = Inr (Some (SFloat PInf))"
    using ti by simp
  have mb: "map_of [(''distance'', JInt (2 ^ 60 + 1))] ''distance'' = Some (JInt (2 ^ 60 + 1))"
    by simp
  have ob: "\<not> overflows (of_int (2 ^ 60 + 1))" by (simp add: overflows_def)
  have vb: "fl (of_int (2 ^ 60 + 1)) = 2 ^ 60" by code_simp
  have ob': "\<not> overflows (2 ^ 60 / 1000)" by (simp add: overflows_def)
  have vb': "fl (2 ^ 60 / 1000) = 1152921504606847" by code_simp
  note tb = distance_state_kilometres [OF mb, where n = "2 ^ 60 + 1" and sf = no_parse
      and dt = no_parse]
  have 4: "state no_parse no_parse ''distance'' (JDict [(''distance'', JInt (2 ^ 60 + 1))])
      = Inr (Some (SFloat (Fin 1152921504606847)))"
    using tb ob vb ob' vb' by (simp add: fround_def)
  show ?thesis using 1 2 3 4 by simp
qed

text \<open>
  An int distance too large for a double has no quotient by 1000 in the sensor: the conversion
  raises and the sensor returns \<^verbatim>\<open>None\<close>, against the claim of C7.
\<close>

theorem distance_state_int_too_large:
  "state no_parse no_parse ''distance'' (JDict [(''distance'', JInt (2 ^ 1024))]) = Inr None"
  by (simp add: state_def state_body_def int_to_float_def overflows_def)

text \<open>
  C8, as the code has it. The duration and pause-duration sensors return
  \<^verbatim>\<open>int(seconds / 60)\<close>, a division in double precision. For a non-negative int or double
  below \<open>60 * 2 ^ 48\<close> seconds that is the floor of the exact quotient.
\<close>

theorem duration_state_floor_minutes:
  assumes "key = ''duration'' \<and> field = ''duration''
           \<or> key = ''pause_duration'' \<and> field = ''pauseDuration''"
    and "map_of kv field = Some d"
  shows
    "(d = JInt s \<and> 0 \<le> s \<and> s < 60 * 2 ^ 48
        \<longrightarrow> state sf dt key (JDict kv) = Inr (Some (SInt (s div 60))))
     \<and> (d = JFloat (Fin x) \<and> fl x = x \<and> 0 \<le> x \<and> x < 60 * 2 ^ 48
        \<longrightarrow> state sf dt key (JDict kv) = Inr (Some (SInt \<lfloor>x / 60\<rfloor>)))"
proof -
  have ne: "kv \<noteq> []" using assms(2) by auto
  have body: "state_body sf dt key (JDict kv)
      = (if d = JNull then Inr None
         else ebind (py_truediv d 60) (\<lambda>m. ebind (int_of_float m) (\<lambda>i. Inr (Some (SInt i)))))"
    using assms(1)
  proof (elim disjE conjE)
    assume "key = ''duration''" "field = ''duration''"
    then show ?thesis using assms(2) by (simp add: state_body_def)
  next
    assume "key = ''pause_duration''" "field = ''pauseDuration''"
    then show ?thesis using assms(2) by (simp add: state_body_def)
  qed
  have 1: "state sf dt key (JDict kv) = Inr (Some (SInt (s div 60)))"
    if "d = JInt s" "0 \<le> s" "s < 60 * 2 ^ 48"
  proof -
    have "(of_int s :: rat) < of_int (60 * 2 ^ 48)" using that(3) by (simp only: of_int_less_iff)
    then have "\<bar>of_int s / 60 :: rat\<bar> < 2 ^ 1023" using that(2) by simp
    then have no: "\<not> overflows (of_int s / 60)" by (rule not_overflows_lt)
    have nn: "0 \<le> fl (of_int s / 60)" using that(2) by (intro fl_nonneg) simp
    show ?thesis using that no nn ne
      by (simp add: state_dict body int_truediv_def fl_div60_floor)
  qed
  have 2: "state sf dt key (JDict kv) = Inr (Some (SInt \<lfloor>x / 60\<rfloor>))"
    if "d = JFloat (Fin x)" "fl x = x" "0 \<le> x" "x < 60 * 2 ^ 48"
  proof -
    have "\<bar>x / 60\<bar> < 2 ^ 1023" using that(3,4) by simp
    then have no: "\<not> overflows (x / 60)" by (rule not_overflows_lt)
    have nn: "0 \<le> fl (x / 60)" using that(3) by (intro fl_nonneg) simp
    show ?thesis using that no nn ne
      by (simp add: state_dict body int_to_float_consts fround_def fl_div60_floor_double)
  qed
  show ?thesis using 1 2 by blast
qed

text \<open>125 seconds are 2 minutes, 90.5 seconds of pause are 1 minute.\<close>

theorem duration_state_floor_minutes_witness:
  "state no_parse no_parse ''duration'' (JDict [(''duration'', JInt 125)]) = Inr (Some (SInt 2))
   \<and> state no_parse no_parse ''pause_duration'' (JDict [(''pauseDuration'', JFloat (Fin (181 / 2)))])
     = Inr (Some (SInt 1))"
proof -
  have k1: "''duration'' = ''duration'' \<and> ''duration'' = ''duration''
      \<or> ''duration'' = ''pause_duration'' \<and> ''duration'' = ''pauseDuration''" by simp
  have k2: "''pause_duration'' = ''duration'' \<and> ''pauseDuration'' = ''duration''
      \<or> ''pause_duration'' = ''pause_duration'' \<and> ''pauseDuration'' = ''pauseDuration''" by simp
  have m1: "map_of [(''duration'', JInt 125)] ''duration'' = Some (JInt 125)" by simp
  have m2: "map_of [(''pauseDuration'', JFloat (Fin (181 / 2)))] ''pauseDuration''
      = Some (JFloat (Fin (181 / 2)))" by simp
  have d: "fl (181 / 2) = 181 / 2" by code_simp
  have f: "\<lfloor>(181 / 2 :: rat) / 60\<rfloor> = 1" by (rule floor_unique) simp_all
  note t1 = duration_state_floor_minutes [OF k1 m1, where s = 125 and sf = no_parse and dt = no_parse]
  note t2 = duration_state_floor_minutes [OF k2 m2, where x = "181 / 2" and sf = no_parse
      and dt = no_parse]
  have 1: "state no_parse no_parse ''duration'' (JDict [(''duration'', JInt 125)])
      = Inr (Some (SInt 2))" using t1 by simp
  have 2: "state no_parse no_parse ''pause_duration''
      (JDict [(''pauseDuration'', JFloat (Fin (181 / 2)))]) = Inr (Some (SInt 1))"
    using t2 d f by simp
  show ?thesis using 1 2 by simp
qed

text \<open>
  At \<open>60 * 2 ^ 48 + 59\<close> seconds the quotient rounds up to the next double, \<open>2 ^ 48 + 1\<close>,
  while the floor of the exact quotient is \<open>2 ^ 48\<close>, against the claim of C8.
\<close>

theorem duration_state_rounds_up:
  "state no_parse no_parse ''duration'' (JDict [(''duration'', JInt (60 * 2 ^ 48 + 59))])
     = Inr (Some (SInt (2 ^ 48 + 1)))
   \<and> (60 * 2 ^ 48 + 59) div 60 = (2 ^ 48 :: int)"
proof -
  have v: "fl ((60 * 2 ^ 48 + 59) / 60) = 2 ^ 48 + 1" by code_simp
  have o: "\<not> overflows ((60 * 2 ^ 48 + 59) / 60)" by (simp add: overflows_def)
  have "state no_parse no_parse ''duration'' (JDict [(''duration'', JInt (60 * 2 ^ 48 + 59))])
     = Inr (Some (SInt (2 ^ 48 + 1)))"
    using v o by (simp add: state_def state_body_def int_truediv_def)
  then show ?thesis by simp
qed

lemma ebind_Inr: "ebind m f = Inr y \<Longrightarrow> \<exists>x. m = Inr x \<and> f x = Inr y"
  by (cases m) auto

lemma attr_ride_status_keys:
  assumes "attr_ride_status d = Inr a"
  shows "map_of a ''battery_level'' = None"
proof -
  from assms obtain v where v: "dict_get d ''state'' JNull = Inr v"
    and r: "(if truthy v then
         ebind (getitem d ''state'') (\<lambda>w. ebind (py_lower w) (\<lambda>l.
           Inr [(''ride_status'', JStr (''entity.sensor.status.state.'' @ l))]))
       else Inr []) = Inr a"
    unfolding attr_ride_status_def by (blast dest: ebind_Inr)
  show ?thesis
  proof (cases "truthy v")
    case False
    then show ?thesis using r by simp
  next
    case True
    then obtain w l where "a = [(''ride_status'', JStr (''entity.sensor.status.state.'' @ l))]"
      using r by (auto dest!: ebind_Inr)
    then show ?thesis by simp
  qed
qed

lemma attr_distance_km_keys:
  assumes "attr_distance_km d = Inr a"
  shows "map_of a ''battery_level'' = None"
proof -
  from assms obtain v where v: "dict_get d ''distance'' JNull = Inr v"
    and r: "(if truthy v then
         ebind (getitem d ''distance'') (\<lambda>w. ebind (py_truediv w 1000) (\<lambda>q.
           ebind (py_round (JFloat q) 2) (\<lambda>r. Inr [(''distance_km'', r)])))
       else Inr []) = Inr a"
    unfolding attr_distance_km_def by (blast dest: ebind_Inr)
  show ?thesis
  proof (cases "truthy v")
    case False
    then show ?thesis using r by simp
  next
    case True
    then obtain x where "a = [(''distance_km'', x)]"
      using r by (auto dest!: ebind_Inr)
    then show ?thesis by simp
  qed
qed

lemma attr_duration_minutes_keys:
  assumes "attr_duration_minutes d = Inr a"
  shows "map_of a ''battery_level'' = None"
proof -
  from assms obtain v where v: "dict_get d ''duration'' JNull = Inr v"
    and r: "(if truthy v then
         ebind (getitem d ''duration'') (\<lambda>w. ebind (py_truediv w 60) (\<lambda>q.
           ebind (py_round (JFloat q) 1) (\<lambda>r. Inr [(''duration_minutes'', r)])))
       else Inr []) = Inr a"
    unfolding attr_duration_minutes_def by (blast dest: ebind_Inr)
  show ?thesis
  proof (cases "truthy v")
    case False
    then show ?thesis using r by simp
  next
    case True
    then obtain x where "a = [(''duration_minutes'', x)]"
      using r by (auto dest!: ebind_Inr)
    then show ?thesis by simp
  qed
qed

lemma attributes_with_battery:
  assumes "attr_ride_status (JDict kv) = Inr a1" "attr_distance_km (JDict kv) = Inr a2"
    and "attr_duration_minutes (JDict kv) = Inr a3"
    and "attr_battery_level (JDict kv) = Inr [(''battery_level'', v)]" "kv \<noteq> []"
  shows "\<exists>a. extra_state_attributes (JDict kv) = Inr a \<and> map_of a ''battery_level'' = Some v"
proof -
  have "extra_state_attributes (JDict kv) = Inr (a1 @ a2 @ a3 @ [(''battery_level'', v)])"
    using assms by (simp add: extra_state_attributes_def attributes_body_def)
  moreover have "map_of (a1 @ a2 @ a3 @ [(''battery_level'', v)]) ''battery_level'' = Some v"
    using attr_ride_status_keys [OF assms(1)] attr_distance_km_keys [OF assms(2)]
      attr_duration_minutes_keys [OF assms(3)]
    by (simp add: map_add_def)
  ultimately show ?thesis by blast
qed

lemma round_percent:
  assumes "0 < b" "b \<le> 1"
  shows "py_mul (JFloat (Fin b)) 100 = Inr (JFloat (Fin (fl (b * 100))))"
    and "py_round (JFloat (Fin (fl (b * 100)))) 1 = Inr (JFloat (Fin (percent_1dp b)))"
proof -
  have "\<bar>b * 100\<bar> < 2 ^ 1023" using assms by simp
  then have "\<not> overflows (b * 100)" by (rule not_overflows_lt)
  then show "py_mul (JFloat (Fin b)) 100 = Inr (JFloat (Fin (fl (b * 100))))"
    by (simp add: int_to_float_consts fround_def)
  define y where "y = fl (b * 100)"
  have y0: "0 \<le> y" unfolding y_def using assms by (intro fl_nonneg) simp
  have "b * 100 \<le> 2 ^ 7" using assms by simp
  then have y1: "y \<le> 2 ^ 7" unfolding y_def using assms by (intro fl_le_pow2) auto
  have "(of_int 0 :: rat) \<le> y * 10" using y0 by simp
  then have r0: "0 \<le> round_half_even (y * 10)" by (rule round_half_even_ge)
  have "y * 10 \<le> of_int 1280" using y1 by simp
  then have r1: "round_half_even (y * 10) \<le> 1280" by (rule round_half_even_le)
  have "(0::rat) \<le> of_int (round_half_even (y * 10))" using r0 by simp
  moreover have "(of_int (round_half_even (y * 10)) :: rat) \<le> of_int 1280"
    using r1 by (simp only: of_int_le_iff)
  ultimately have "\<bar>of_int (round_half_even (y * 10)) / 10 :: rat\<bar> < 2 ^ 1023" by simp
  then have "\<not> overflows (of_int (round_half_even (y * 10)) / 10)" by (rule not_overflows_lt)
  then show "py_round (JFloat (Fin (fl (b * 100)))) 1 = Inr (JFloat (Fin (percent_1dp b)))"
    by (simp add: percent_1dp_def y_def Let_def)
qed

text \<open>
  C6, as the code has it, for a battery level \<open>b\<close> that is a fraction in \<open>[0, 1]\<close>: a float, or
  the int 0 or 1. The battery sensor returns a float of the snapshot unchanged (and the ints 0
  and 1 as the floats 0.0 and 1.0), and its entity description, the one of \<^verbatim>\<open>SENSOR_TYPES\<close> with
  the key \<^verbatim>\<open>battery\<close>, gives the state the unit \<^verbatim>\<open>PERCENTAGE\<close>. The tracker's
  \<^verbatim>\<open>battery_level\<close> attribute is \<^verbatim>\<open>round(b * 100, 1)\<close> when \<open>b\<close> is not zero and the three
  attributes computed before it raise nothing (an exception in any of them empties the whole
  attribute dict).
\<close>

theorem battery_two_conventions:
  assumes "map_of kv ''currentBatteryLevel'' = Some d"
  shows
    "(d = JFloat f \<longrightarrow> state sf dt ''battery'' (JDict kv) = Inr (Some (SFloat f)))
     \<and> (d = JInt n \<and> 0 \<le> n \<and> n \<le> 1
        \<longrightarrow> state sf dt ''battery'' (JDict kv) = Inr (Some (SFloat (Fin (of_int n)))))
     \<and> (d = JFloat (Fin b) \<and> 0 < b \<and> b \<le> 1
        \<and> attr_ride_status (JDict kv) = Inr a1 \<and> attr_distance_km (JDict kv) = Inr a2
        \<and> attr_duration_minutes (JDict kv) = Inr a3
        \<longrightarrow> (\<exists>a. extra_state_attributes (JDict kv) = Inr a
              \<and> map_of a ''battery_level'' = Some (JFloat (Fin (percent_1dp b)))))
     \<and> (d = JInt 1
        \<and> attr_ride_status (JDict kv) = Inr a1 \<and> attr_distance_km (JDict kv) = Inr a2
        \<and> attr_duration_minutes (JDict kv) = Inr a3
        \<longrightarrow> (\<exists>a. extra_state_attributes (JDict kv) = Inr a
              \<and> map_of a ''battery_level'' = Some (JInt 100)))
     \<and> (\<exists>desc. map_of SENSOR_TYPES ''battery'' = Some desc \<and> desc_key desc = ''battery''
          \<and> native_unit_of_measurement desc = Some PERCENTAGE)
     \<and> [desc \<leftarrow> map snd SENSOR_TYPES. desc_key desc = ''battery'']
        = [the (map_of SENSOR_TYPES ''battery'')]"
proof -
  have ne: "kv \<noteq> []" using assms by auto
  have 5: "\<exists>desc. map_of SENSOR_TYPES ''battery'' = Some desc \<and> desc_key desc = ''battery''
      \<and> native_unit_of_measurement desc = Some PERCENTAGE"
    by (simp add: SENSOR_TYPES_def)
  have 6: "[desc \<leftarrow> map snd SENSOR_TYPES. desc_key desc = ''battery'']
      = [the (map_of SENSOR_TYPES ''battery'')]"
    by (simp add: SENSOR_TYPES_def)
  have 1: "state sf dt ''battery'' (JDict kv) = Inr (Some (SFloat f))" if "d = JFloat f"
    using that assms ne by (simp add: state_dict state_body_def)
  have 2: "state sf dt ''battery'' (JDict kv) = Inr (Some (SFloat (Fin (of_int n))))"
    if "d = JInt n" "0 \<le> n" "n \<le> 1"
  proof -
    have "\<bar>n\<bar> \<le> 2 ^ 53" using that(2,3) by simp
    then have "int_to_float n = Inr (Fin (of_int n))" by (rule int_to_float_small)
    then show ?thesis using that(1) assms ne by (simp add: state_dict state_body_def)
  qed
  have 3: "\<exists>a. extra_state_attributes (JDict kv) = Inr a
      \<and> map_of a ''battery_level'' = Some (JFloat (Fin (percent_1dp b)))"
    if "d = JFloat (Fin b)" "0 < b" "b \<le> 1" "attr_ride_status (JDict kv) = Inr a1"
      "attr_distance_km (JDict kv) = Inr a2" "attr_duration_minutes (JDict kv) = Inr a3"
  proof -
    have "attr_battery_level (JDict kv) = Inr [(''battery_level'', JFloat (Fin (percent_1dp b)))]"
      using assms that(1,2) round_percent [OF that(2,3)]
      by (simp add: attr_battery_level_def)
    then show ?thesis using that(4,5,6) ne by (intro attributes_with_battery)
  qed
  have 4: "\<exists>a. extra_state_attributes (JDict kv) = Inr a
      \<and> map_of a ''battery_level'' = Some (JInt 100)"
    if "d = JInt 1" "attr_ride_status (JDict kv) = Inr a1"
      "attr_distance_km (JDict kv) = Inr a2" "attr_duration_minutes (JDict kv) = Inr a3"
  proof -
    have "attr_battery_level (JDict kv) = Inr [(''battery_level'', JInt 100)]"
      using assms that(1) by (simp add: attr_battery_level_def)
    then show ?thesis using that(2,3,4) ne by (intro attributes_with_battery)
  qed
  show ?thesis using 1 2 3 4 5 6 by blast
qed

text \<open>A battery level of 0.75 is the sensor's state 0.75 and the tracker's attribute 75.0; the
  int 1 is the state 1.0 and the attribute 100.\<close>

theorem battery_two_conventions_witness:
  "state no_parse no_parse ''battery'' (JDict [(''state'', JStr ''RIDE_ACTIVE''),
      (''currentBatteryLevel'', JFloat (Fin (3 / 4)))])
     = Inr (Some (SFloat (Fin (3 / 4))))
   \<and> (\<exists>a. extra_state_attributes (JDict [(''state'', JStr ''RIDE_ACTIVE''),
      (''currentBatteryLevel'', JFloat (Fin (3 / 4)))]) = Inr a
        \<and> map_of a ''battery_level'' = Some (JFloat (Fin 75)))
   \<and> state no_parse no_parse ''battery'' (JDict [(''currentBatteryLevel'', JInt 1)])
     = Inr (Some (SFloat (Fin 1)))
   \<and> (\<exists>a. extra_state_attributes (JDict [(''currentBatteryLevel'', JInt 1)]) = Inr a
        \<and> map_of a ''battery_level'' = Some (JInt 100))"
proof -
  let ?kv = "[(''state'', JStr ''RIDE_ACTIVE''), (''currentBatteryLevel'', JFloat (Fin (3 / 4)))]"
  let ?ki = "[(''currentBatteryLevel'', JInt 1)]"
  have m: "map_of ?kv ''currentBatteryLevel'' = Some (JFloat (Fin (3 / 4)))" by simp
  have h1: "attr_ride_status (JDict ?kv)
      = Inr [(''ride_status'', JStr ''entity.sensor.status.state.ride_active'')]"
    by (simp add: attr_ride_status_def py_lower_def lower_char_def char_of_def bit_Suc_0_iff)
  have h2: "attr_distance_km (JDict ?kv) = Inr []" by (simp add: attr_distance_km_def)
  have h3: "attr_duration_minutes (JDict ?kv) = Inr []" by (simp add: attr_duration_minutes_def)
  have p: "percent_1dp (3 / 4) = 75" by code_simp
  note t = battery_two_conventions [OF m, where f = "Fin (3 / 4)" and b = "3 / 4"
      and sf = no_parse and dt = no_parse
      and ?a1.0 = "[(''ride_status'', JStr ''entity.sensor.status.state.ride_active'')]"
      and ?a2.0 = "[]" and ?a3.0 = "[]"]
  have 1: "state no_parse no_parse ''battery'' (JDict ?kv) = Inr (Some (SFloat (Fin (3 / 4))))"
    using t by simp
  have 2: "\<exists>a. extra_state_attributes (JDict ?kv) = Inr a
      \<and> map_of a ''battery_level'' = Some (JFloat (Fin 75))"
    using t h1 h2 h3 p by simp
  have mi: "map_of ?ki ''currentBatteryLevel'' = Some (JInt 1)" by simp
  have i1: "attr_ride_status (JDict ?ki) = Inr []" by (simp add: attr_ride_status_def)
  have i2: "attr_distance_km (JDict ?ki) = Inr []" by (simp add: attr_distance_km_def)
  have i3: "attr_duration_minutes (JDict ?ki) = Inr []" by (simp add: attr_duration_minutes_def)
  note ti = battery_two_conventions [OF mi, where n = 1 and sf = no_parse and dt = no_parse
      and ?a1.0 = "[]" and ?a2.0 = "[]" and ?a3.0 = "[]"]
  have 3: "state no_parse no_parse ''battery'' (JDict ?ki) = Inr (Some (SFloat (Fin 1)))"
    using ti by simp
  have 4: "\<exists>a. extra_state_attributes (JDict ?ki) = Inr a
      \<and> map_of a ''battery_level'' = Some (JInt 100)"
    using ti i1 i2 i3 by simp
  show ?thesis using 1 2 3 4 by blast
qed

text \<open>
  At a battery level of \<open>0.0\<close> the truthiness test skips the attribute: the tracker has no
  \<^verbatim>\<open>battery_level\<close>, where the claim of C6 wants \<^verbatim>\<open>round(0.0 * 100, 1)\<close>.
\<close>

theorem battery_level_absent_at_zero:
  "extra_state_attributes (JDict [(''state'', JStr ''RIDE_ACTIVE''),
      (''currentBatteryLevel'', JFloat (Fin 0))])
     = Inr [(''ride_status'', JStr ''entity.sensor.status.state.ride_active'')]"
  by (simp add: extra_state_attributes_def attributes_body_def attr_ride_status_def
      attr_distance_km_def attr_duration_minutes_def attr_battery_level_def
      py_lower_def lower_char_def char_of_def bit_Suc_0_iff)

section \<open>The share URL and the share id\<close>

lemmas url_eval_defs =
  coordinator_init_def scan_interval_of_def timedelta_overflow_def strip_at_def
  DEFAULT_SCAN_INTERVAL_def urlparse_path_def url_clean_def split_scheme_def split_netloc_def
  netloc_rejected_def netloc_delim_def ascii_alpha_def scheme_char_def uses_params_def
  split_params_def lower_char_def accept_netloc_def Let_def

text \<open>
  C4, as the code has it. The configuration step rejects a URL that does not start with the
  base domain with \<^verbatim>\<open>invalid_url\<close>, and a URL on the base domain in which the pattern
  \<^verbatim>\<open>/a/<token>\<close> does not occur with \<^verbatim>\<open>invalid_url_format\<close>. The coordinator's constructor
  checks no domain: when \<^verbatim>\<open>timedelta\<close> accepts the scan interval and \<^verbatim>\<open>urlparse\<close> the URL,
  it raises \<^verbatim>\<open>ValueError("Invalid share URL format")\<close> if the path of the URL, one leading
  \<^verbatim>\<open>@\<close> stripped, has no \<^verbatim>\<open>/a/<token>\<close>, and otherwise it is constructed with that token.
\<close>

theorem share_url_rejections:
  "(\<not> prefix BASE_URL (in_share_url ui)
      \<longrightarrow> async_step_user (Some ui) = ShowForm (Some ''invalid_url''))
   \<and> (prefix BASE_URL (in_share_url ui) \<and> re_search_share_id (in_share_url ui) = None
      \<longrightarrow> async_step_user (Some ui) = ShowForm (Some ''invalid_url_format''))
   \<and> (\<not> timedelta_overflow (scan_interval_of entry)
      \<and> urlparse_path nk (strip_at (conf_share_url entry)) = Some p
      \<and> re_search_share_id p = None
      \<longrightarrow> coordinator_init nk entry = Inl InvalidShareUrlFormat)
   \<and> (\<not> timedelta_overflow (scan_interval_of entry)
      \<and> urlparse_path nk (strip_at (conf_share_url entry)) = Some p
      \<and> re_search_share_id p = Some m
      \<longrightarrow> coordinator_init nk entry
          = Inr \<lparr>share_url = strip_at (conf_share_url entry), share_id = m,
              update_interval = scan_interval_of entry\<rparr>)"
  by (simp add: async_step_user_def coordinator_init_def)

text \<open>The two rejections of the configuration step, a URL whose only \<^verbatim>\<open>/a/\<close> is in the
  query, and a well-formed share URL.\<close>

theorem share_url_rejections_witness:
  "async_step_user (Some \<lparr>in_share_url = ''http://example.com/fr/a/XYZ'', in_language = ''fr'',
      in_scan_interval = 5\<rparr>) = ShowForm (Some ''invalid_url'')
   \<and> async_step_user (Some \<lparr>in_share_url = ''https://rider.live/fr'', in_language = ''fr'',
      in_scan_interval = 5\<rparr>) = ShowForm (Some ''invalid_url_format'')
   \<and> coordinator_init accept_netloc \<lparr>conf_share_url = ''https://rider.live/fr?x=/a/tok'',
      conf_language = ''fr'', conf_scan_interval = Some 5\<rparr> = Inl InvalidShareUrlFormat
   \<and> coordinator_init accept_netloc \<lparr>conf_share_url = ''https://rider.live/fr/a/tok'',
      conf_language = ''fr'', conf_scan_interval = Some 5\<rparr>
     = Inr \<lparr>share_url = ''https://rider.live/fr/a/tok'', share_id = ''tok'', update_interval = 5\<rparr>"
proof -
  let ?u1 = "\<lparr>in_share_url = ''http://example.com/fr/a/XYZ'', in_language = ''fr'',
      in_scan_interval = 5\<rparr>"
  let ?u2 = "\<lparr>in_share_url = ''https://rider.live/fr'', in_language = ''fr'',
      in_scan_interval = 5\<rparr>"
  let ?e3 = "\<lparr>conf_share_url = ''https://rider.live/fr?x=/a/tok'', conf_language = ''fr'',
      conf_scan_interval = Some 5\<rparr>"
  let ?e4 = "\<lparr>conf_share_url = ''https://rider.live/fr/a/tok'', conf_language = ''fr'',
      conf_scan_interval = Some 5\<rparr>"
  have h1: "\<not> prefix BASE_URL (in_share_url ?u1)" by (simp add: BASE_URL_def)
  have h2: "prefix BASE_URL (in_share_url ?u2) \<and> re_search_share_id (in_share_url ?u2) = None"
    by (simp add: BASE_URL_def)
  have i3: "\<not> timedelta_overflow (scan_interval_of ?e3)"
    by (simp add: timedelta_overflow_def scan_interval_of_def)
  have i4: "\<not> timedelta_overflow (scan_interval_of ?e4)"
    by (simp add: timedelta_overflow_def scan_interval_of_def)
  have p3: "urlparse_path accept_netloc (strip_at (conf_share_url ?e3)) = Some ''/fr''"
    by (simp add: url_eval_defs)
  have p4: "urlparse_path accept_netloc (strip_at (conf_share_url ?e4)) = Some ''/fr/a/tok''"
    by (simp add: url_eval_defs)
  have r3: "re_search_share_id ''/fr'' = None" by simp
  have r4: "re_search_share_id ''/fr/a/tok'' = Some ''tok''" by simp
  have 1: "async_step_user (Some ?u1) = ShowForm (Some ''invalid_url'')"
    using share_url_rejections [where ui = ?u1] h1 by blast
  have 2: "async_step_user (Some ?u2) = ShowForm (Some ''invalid_url_format'')"
    using share_url_rejections [where ui = ?u2] h2 by blast
  have 3: "coordinator_init accept_netloc ?e3 = Inl InvalidShareUrlFormat"
    using share_url_rejections [where entry = ?e3 and nk = accept_netloc and p = "''/fr''"]
      i3 p3 r3 by blast
  have "coordinator_init accept_netloc ?e4
      = Inr \<lparr>share_url = strip_at (conf_share_url ?e4), share_id = ''tok'',
          update_interval = scan_interval_of ?e4\<rparr>"
    using share_url_rejections [where entry = ?e4 and nk = accept_netloc and p = "''/fr/a/tok''"
        and m = "''tok''"] i4 p4 r4 by blast
  then have 4: "coordinator_init accept_netloc ?e4
      = Inr \<lparr>share_url = ''https://rider.live/fr/a/tok'', share_id = ''tok'', update_interval = 5\<rparr>"
    by (simp add: strip_at_def scan_interval_of_def)
  show ?thesis using 1 2 3 4 by simp
qed

text \<open>
  A URL on another domain does not start with the base domain, and the constructor accepts
  it, against the claim of C4.
\<close>

theorem coordinator_accepts_other_domain:
  "\<not> prefix BASE_URL ''http://example.com/fr/a/XYZ''
   \<and> coordinator_init accept_netloc \<lparr>conf_share_url = ''http://example.com/fr/a/XYZ'',
      conf_language = ''fr'', conf_scan_interval = Some 5\<rparr>
     = Inr \<lparr>share_url = ''http://example.com/fr/a/XYZ'', share_id = ''XYZ'', update_interval = 5\<rparr>"
  by (simp add: url_eval_defs BASE_URL_def)

lemma takeWhile_stop: "R = [] \<or> \<not> P (hd R) \<Longrightarrow> takeWhile P R = []"
  by (cases R) auto

lemma re_search_after_lang:
  assumes "CHR ''/'' \<notin> set lang" "CHR ''/'' \<notin> set tok" "tok \<noteq> []" "R = [] \<or> hd R = CHR ''/''"
  shows "re_search_share_id (lang @ ''/a/'' @ tok @ R) = Some tok"
  using assms(1)
proof (induction lang)
  case Nil
  have "takeWhile (\<lambda>x. x \<noteq> CHR ''/'') (tok @ R) = tok @ takeWhile (\<lambda>x. x \<noteq> CHR ''/'') R"
    using assms(2) by (intro takeWhile_append2) auto
  moreover have "takeWhile (\<lambda>x. x \<noteq> CHR ''/'') R = []"
    using assms(4) by (intro takeWhile_stop) auto
  ultimately have "takeWhile (\<lambda>x. x \<noteq> CHR ''/'') (tok @ R) = tok" by simp
  then show ?case using assms(3) by simp
next
  case (Cons x xs)
  then have "x \<noteq> CHR ''/''" by auto
  then show ?case using Cons by simp
qed

lemma re_search_path:
  assumes "CHR ''/'' \<notin> set lang" "lang \<noteq> ''a''" "CHR ''/'' \<notin> set tok" "tok \<noteq> []"
    and "R = [] \<or> hd R = CHR ''/''"
  shows "re_search_share_id (''/'' @ lang @ ''/a/'' @ tok @ R) = Some tok"
proof -
  have no: "take 3 (CHR ''/'' # lang @ ''/a/'' @ tok @ R) \<noteq> ''/a/''"
  proof (cases lang)
    case Nil
    then show ?thesis by simp
  next
    case (Cons x xs)
    show ?thesis
    proof (cases xs)
      case Nil
      then show ?thesis using Cons assms(2) by simp
    next
      case c2: (Cons y ys)
      then have "y \<noteq> CHR ''/''" using Cons assms(1) by auto
      then show ?thesis using Cons c2 by simp
    qed
  qed
  have "re_search_share_id (CHR ''/'' # lang @ ''/a/'' @ tok @ R)
      = re_search_share_id (lang @ ''/a/'' @ tok @ R)"
    using no by (simp del: take_Suc_Cons)
  then show ?thesis using re_search_after_lang [OF assms(1,3,4,5)] by simp
qed

lemma split_params_keeps_token:
  assumes "CHR ''/'' \<notin> set tok" "CHR '';'' \<notin> set tok" "R = [] \<or> hd R = CHR ''/''"
  shows "\<exists>R'. split_params (B @ ''/'' @ tok @ R) = B @ ''/'' @ tok @ R'
           \<and> (R' = [] \<or> hd R' = CHR ''/'')"
proof (cases R)
  case Nil
  let ?p = "B @ ''/'' @ tok"
  have "rev ?p = rev tok @ CHR ''/'' # rev B" by simp
  then have "takeWhile (\<lambda>c. c \<noteq> CHR ''/'') (rev ?p) = takeWhile (\<lambda>c. c \<noteq> CHR ''/'') (rev tok)"
    by (simp add: takeWhile_tail)
  also have "\<dots> = rev tok" using assms(1) by (auto simp add: takeWhile_eq_all_conv)
  finally have seg: "rev (takeWhile (\<lambda>c. c \<noteq> CHR ''/'') (rev ?p)) = tok" by simp
  have "split_params ?p = ?p"
    unfolding split_params_def Let_def seg using assms(2) by simp
  then show ?thesis using Nil by auto
next
  case (Cons c more)
  then have c: "c = CHR ''/''" using assms(3) by simp
  let ?A = "B @ ''/'' @ tok"
  let ?p = "?A @ CHR ''/'' # more"
  define seg where "seg = rev (takeWhile (\<lambda>c. c \<noteq> CHR ''/'') (rev ?p))"
  have "rev ?p = rev more @ CHR ''/'' # rev ?A" by simp
  then have "takeWhile (\<lambda>c. c \<noteq> CHR ''/'') (rev ?p) = takeWhile (\<lambda>c. c \<noteq> CHR ''/'') (rev more)"
    by (simp add: takeWhile_tail)
  then have "length seg = length (takeWhile (\<lambda>c. c \<noteq> CHR ''/'') (rev more))"
    unfolding seg_def by simp
  also have "\<dots> \<le> length (rev more)" by (rule length_takeWhile_le)
  finally have len: "length seg \<le> length more" by simp
  define n where "n = length more - length seg"
  have "length ?p - length seg = length ?A + Suc n" using len by (simp add: n_def)
  then have tk: "take (length ?p - length seg) ?p = ?A @ CHR ''/'' # take n more" by simp
  have sp: "split_params ?p =
      (if CHR '';'' \<in> set seg
       then take (length ?p - length seg) ?p @ takeWhile (\<lambda>c. c \<noteq> CHR '';'') seg else ?p)"
    unfolding split_params_def Let_def seg_def by simp
  show ?thesis
  proof (cases "CHR '';'' \<in> set seg")
    case True
    then have "split_params ?p
        = ?A @ (CHR ''/'' # take n more @ takeWhile (\<lambda>c. c \<noteq> CHR '';'') seg)"
      using sp tk by simp
    then show ?thesis using Cons c
      by (intro exI [of _ "CHR ''/'' # take n more @ takeWhile (\<lambda>c. c \<noteq> CHR '';'') seg"]) simp
  next
    case False
    then have "split_params ?p = ?p" using sp by simp
    then show ?thesis using Cons c by (intro exI [of _ "CHR ''/'' # more"]) simp
  qed
qed

lemma query_fragment_cut:
  assumes "R = [] \<or> hd R = CHR ''?'' \<or> hd R = CHR ''#'' \<or> hd R = CHR ''/''"
  shows "takeWhile (\<lambda>c. c \<noteq> CHR ''?'') (takeWhile (\<lambda>c. c \<noteq> CHR ''#'') R) = []
         \<or> hd (takeWhile (\<lambda>c. c \<noteq> CHR ''?'') (takeWhile (\<lambda>c. c \<noteq> CHR ''#'') R)) = CHR ''/''"
  using assms by (cases R) auto

lemma urlparse_path_share_url:
  assumes "plain_segment lang" "plain_segment tok" "CHR '';'' \<notin> set tok"
    and "rest = [] \<or> hd rest = CHR ''?'' \<or> hd rest = CHR ''#'' \<or> hd rest = CHR ''/''"
  shows "\<exists>R. urlparse_path nk (''https://rider.live/'' @ lang @ ''/a/'' @ tok @ rest)
             = Some (''/'' @ lang @ ''/a/'' @ tok @ R)
           \<and> (R = [] \<or> hd R = CHR ''/'')"
proof -
  let ?F = "\<lambda>c. c \<noteq> CHR 0x09 \<and> c \<noteq> CHR 0x0D \<and> c \<noteq> CHR 0x0A"
  define R1 where "R1 = filter ?F rest"
  have flang: "filter ?F lang = lang" using assms(1)
    by (auto simp add: plain_segment_def list_all_iff filter_id_conv)
  have ftok: "filter ?F tok = tok" using assms(2)
    by (auto simp add: plain_segment_def list_all_iff filter_id_conv)
  have clean: "url_clean (''https://rider.live/'' @ lang @ ''/a/'' @ tok @ rest)
      = ''https://rider.live/'' @ lang @ ''/a/'' @ tok @ R1"
    by (simp add: url_clean_def flang ftok R1_def)
  have R1: "R1 = [] \<or> hd R1 = CHR ''?'' \<or> hd R1 = CHR ''#'' \<or> hd R1 = CHR ''/''"
    using assms(4) unfolding R1_def by (cases rest) auto
  have sch: "split_scheme (''https://rider.live/'' @ lang @ ''/a/'' @ tok @ R1)
      = (''https'', ''//rider.live/'' @ lang @ ''/a/'' @ tok @ R1)"
    by (simp add: split_scheme_def ascii_alpha_def scheme_char_def lower_char_def Let_def)
  have net: "split_netloc (''//rider.live/'' @ lang @ ''/a/'' @ tok @ R1)
      = (''rider.live'', ''/'' @ lang @ ''/a/'' @ tok @ R1)"
    by (simp add: split_netloc_def netloc_delim_def)
  have rej: "\<not> netloc_rejected nk ''rider.live''"
    by (simp add: netloc_rejected_def)
  define R2 where "R2 = takeWhile (\<lambda>c. c \<noteq> CHR ''?'') (takeWhile (\<lambda>c. c \<noteq> CHR ''#'') R1)"
  have R2: "R2 = [] \<or> hd R2 = CHR ''/''"
    unfolding R2_def using R1 by (rule query_fragment_cut)
  have l1: "\<forall>c\<in>set lang. c \<noteq> CHR ''#'' \<and> c \<noteq> CHR ''?''"
    using assms(1) by (auto simp add: plain_segment_def list_all_iff)
  have t1: "\<forall>c\<in>set tok. c \<noteq> CHR ''#'' \<and> c \<noteq> CHR ''?''"
    using assms(2) by (auto simp add: plain_segment_def list_all_iff)
  have h1: "takeWhile (\<lambda>c. c \<noteq> CHR ''#'') (lang @ ''/a/'' @ tok @ R1)
      = lang @ ''/a/'' @ tok @ takeWhile (\<lambda>c. c \<noteq> CHR ''#'') R1"
  proof -
    have "takeWhile (\<lambda>c. c \<noteq> CHR ''#'') ((lang @ ''/a/'' @ tok) @ R1)
        = (lang @ ''/a/'' @ tok) @ takeWhile (\<lambda>c. c \<noteq> CHR ''#'') R1"
      using l1 t1 by (intro takeWhile_append2) auto
    then show ?thesis by simp
  qed
  have h2: "takeWhile (\<lambda>c. c \<noteq> CHR ''?'')
        (lang @ ''/a/'' @ tok @ takeWhile (\<lambda>c. c \<noteq> CHR ''#'') R1)
      = lang @ ''/a/'' @ tok @ R2"
  proof -
    have "takeWhile (\<lambda>c. c \<noteq> CHR ''?'')
          ((lang @ ''/a/'' @ tok) @ takeWhile (\<lambda>c. c \<noteq> CHR ''#'') R1)
        = (lang @ ''/a/'' @ tok) @ R2"
      unfolding R2_def using l1 t1 by (intro takeWhile_append2) auto
    then show ?thesis by simp
  qed
  have path: "takeWhile (\<lambda>c. c \<noteq> CHR ''?'')
        (takeWhile (\<lambda>c. c \<noteq> CHR ''#'') (''/'' @ lang @ ''/a/'' @ tok @ R1))
      = ''/'' @ lang @ ''/a/'' @ tok @ R2"
    using h1 h2 by simp
  have tk: "CHR ''/'' \<notin> set tok" using assms(2) by (auto simp add: plain_segment_def list_all_iff)
  obtain R3 where R3: "split_params ((''/'' @ lang @ ''/a'') @ ''/'' @ tok @ R2)
        = (''/'' @ lang @ ''/a'') @ ''/'' @ tok @ R3" "R3 = [] \<or> hd R3 = CHR ''/''"
    using split_params_keeps_token [OF tk assms(3) R2] by blast
  have sp: "split_params (''/'' @ lang @ ''/a/'' @ tok @ R2) = ''/'' @ lang @ ''/a/'' @ tok @ R3"
    using R3(1) by simp
  have up: "''https'' \<in> set uses_params" by (simp add: uses_params_def)
  have "urlparse_path nk (''https://rider.live/'' @ lang @ ''/a/'' @ tok @ rest)
      = Some (if CHR '';'' \<in> set (''/'' @ lang @ ''/a/'' @ tok @ R2)
              then ''/'' @ lang @ ''/a/'' @ tok @ R3 else ''/'' @ lang @ ''/a/'' @ tok @ R2)"
    unfolding urlparse_path_def clean sch net Let_def prod.case path
    using rej up sp by simp
  then show ?thesis using R2 R3(2) by (cases "CHR '';'' \<in> set (''/'' @ lang @ ''/a/'' @ tok @ R2)") auto
qed

text \<open>
  C5, as the code has it. For a URL \<^verbatim>\<open>[@]https://rider.live/<lang>/a/<TOKEN><rest>\<close>, where
  \<^verbatim>\<open><lang>\<close> is a plain segment other than \<^verbatim>\<open>a\<close>, \<^verbatim>\<open><TOKEN>\<close> is a non-empty plain segment
  without a semicolon, and \<^verbatim>\<open><rest>\<close> is empty or starts a query, a fragment or a further
  path segment, the constructor extracts exactly \<^verbatim>\<open><TOKEN>\<close> as the share id, and keeps the
  URL without the leading \<^verbatim>\<open>@\<close>.
\<close>

theorem share_id_extracted:
  assumes "lead = [] \<or> lead = ''@''"
    and "plain_segment lang" "lang \<noteq> ''a''"
    and "plain_segment tok" "CHR '';'' \<notin> set tok" "tok \<noteq> []"
    and "rest = [] \<or> hd rest = CHR ''?'' \<or> hd rest = CHR ''#'' \<or> hd rest = CHR ''/''"
    and "\<not> timedelta_overflow (scan_interval_of entry)"
    and "conf_share_url entry = lead @ ''https://rider.live/'' @ lang @ ''/a/'' @ tok @ rest"
  shows "coordinator_init nk entry
         = Inr \<lparr>share_url = ''https://rider.live/'' @ lang @ ''/a/'' @ tok @ rest, share_id = tok,
             update_interval = scan_interval_of entry\<rparr>"
proof -
  let ?U = "''https://rider.live/'' @ lang @ ''/a/'' @ tok @ rest"
  have st: "strip_at (conf_share_url entry) = ?U"
    using assms(1,9) by (auto simp add: strip_at_def)
  obtain R where R: "urlparse_path nk ?U = Some (''/'' @ lang @ ''/a/'' @ tok @ R)"
      "R = [] \<or> hd R = CHR ''/''"
    using urlparse_path_share_url [OF assms(2,4,5,7)] by blast
  have l: "CHR ''/'' \<notin> set lang" using assms(2) by (auto simp add: plain_segment_def list_all_iff)
  have t: "CHR ''/'' \<notin> set tok" using assms(4) by (auto simp add: plain_segment_def list_all_iff)
  have "re_search_share_id (''/'' @ lang @ ''/a/'' @ tok @ R) = Some tok"
    using l assms(3) t assms(6) R(2) by (rule re_search_path)
  then show ?thesis using assms(8) R(1) by (simp add: coordinator_init_def st)
qed

text \<open>A URL with a leading \<^verbatim>\<open>@\<close>, a query that holds \<^verbatim>\<open>/a/\<close> and a fragment, and a URL with
  a trailing path segment.\<close>

theorem share_id_extracted_witness:
  "coordinator_init accept_netloc \<lparr>conf_share_url = ''@https://rider.live/fr/a/TOK123?utm=/a/zz#frag'',
      conf_language = ''fr'', conf_scan_interval = None\<rparr>
     = Inr \<lparr>share_url = ''https://rider.live/fr/a/TOK123?utm=/a/zz#frag'', share_id = ''TOK123'',
         update_interval = 5\<rparr>
   \<and> coordinator_init accept_netloc \<lparr>conf_share_url = ''https://rider.live/en/a/TOK123/map;x'',
      conf_language = ''en'', conf_scan_interval = Some 10\<rparr>
     = Inr \<lparr>share_url = ''https://rider.live/en/a/TOK123/map;x'', share_id = ''TOK123'',
         update_interval = 10\<rparr>"
proof -
  let ?e = "\<lparr>conf_share_url = ''@https://rider.live/fr/a/TOK123?utm=/a/zz#frag'',
      conf_language = ''fr'', conf_scan_interval = None\<rparr>"
  let ?g = "\<lparr>conf_share_url = ''https://rider.live/en/a/TOK123/map;x'',
      conf_language = ''en'', conf_scan_interval = Some 10\<rparr>"
  have a1: "''@'' = [] \<or> ''@'' = ''@''" by simp
  have a2: "plain_segment ''fr''" by (simp add: plain_segment_def)
  have a3: "''fr'' \<noteq> ''a''" by simp
  have a4: "plain_segment ''TOK123''" by (simp add: plain_segment_def)
  have a5: "CHR '';'' \<notin> set ''TOK123''" by simp
  have a6: "''TOK123'' \<noteq> []" by simp
  have a7: "''?utm=/a/zz#frag'' = [] \<or> hd ''?utm=/a/zz#frag'' = CHR ''?''
      \<or> hd ''?utm=/a/zz#frag'' = CHR ''#'' \<or> hd ''?utm=/a/zz#frag'' = CHR ''/''" by simp
  have a8: "\<not> timedelta_overflow (scan_interval_of ?e)"
    by (simp add: timedelta_overflow_def scan_interval_of_def DEFAULT_SCAN_INTERVAL_def)
  have a9: "conf_share_url ?e
      = ''@'' @ ''https://rider.live/'' @ ''fr'' @ ''/a/'' @ ''TOK123'' @ ''?utm=/a/zz#frag''" by simp
  have b1: "[] = [] \<or> [] = ''@''" by simp
  have b2: "plain_segment ''en''" by (simp add: plain_segment_def)
  have b3: "''en'' \<noteq> ''a''" by simp
  have b7: "''/map;x'' = [] \<or> hd ''/map;x'' = CHR ''?''
      \<or> hd ''/map;x'' = CHR ''#'' \<or> hd ''/map;x'' = CHR ''/''" by simp
  have b8: "\<not> timedelta_overflow (scan_interval_of ?g)"
    by (simp add: timedelta_overflow_def scan_interval_of_def)
  have b9: "conf_share_url ?g
      = [] @ ''https://rider.live/'' @ ''en'' @ ''/a/'' @ ''TOK123'' @ ''/map;x''" by simp
  have 1: "coordinator_init accept_netloc ?e
      = Inr \<lparr>share_url = ''https://rider.live/fr/a/TOK123?utm=/a/zz#frag'', share_id = ''TOK123'',
          update_interval = 5\<rparr>"
    using share_id_extracted [OF a1 a2 a3 a4 a5 a6 a7 a8 a9, of accept_netloc]
    by (simp add: scan_interval_of_def DEFAULT_SCAN_INTERVAL_def)
  have 2: "coordinator_init accept_netloc ?g
      = Inr \<lparr>share_url = ''https://rider.live/en/a/TOK123/map;x'', share_id = ''TOK123'',
          update_interval = 10\<rparr>"
    using share_id_extracted [OF b1 b2 b3 a4 a5 a6 b7 b8 b9, of accept_netloc]
    by (simp add: scan_interval_of_def)
  show ?thesis using 1 2 by simp
qed

text \<open>
  A token with a semicolon has no slash, yet \<^verbatim>\<open>urlparse\<close> takes what follows the semicolon
  as parameters of the last path segment: the share id is cut, against the claim of C5.
\<close>

theorem share_id_cut_at_semicolon:
  "coordinator_init accept_netloc \<lparr>conf_share_url = ''https://rider.live/fr/a/AB;CD'',
      conf_language = ''fr'', conf_scan_interval = Some 5\<rparr>
     = Inr \<lparr>share_url = ''https://rider.live/fr/a/AB;CD'', share_id = ''AB'', update_interval = 5\<rparr>"
  by (simp add: url_eval_defs)

end
